theory Spec2Isabelle
  imports Main "HOL-Library.Word"
begin

unbundle bit_operations_syntax

section \<open>Vulkan types used by the pipeline layout code\<close>

text \<open>
  The Vulkan headers are not part of the repository. The enumerations are the ones of
  the Vulkan 1.0 core API; flag masks are 32-bit words with the bit values of the API.
\<close>

datatype VkDescriptorType =
    VK_DESCRIPTOR_TYPE_SAMPLER
  | VK_DESCRIPTOR_TYPE_COMBINED_IMAGE_SAMPLER
  | VK_DESCRIPTOR_TYPE_SAMPLED_IMAGE
  | VK_DESCRIPTOR_TYPE_STORAGE_IMAGE
  | VK_DESCRIPTOR_TYPE_UNIFORM_TEXEL_BUFFER
  | VK_DESCRIPTOR_TYPE_STORAGE_TEXEL_BUFFER
  | VK_DESCRIPTOR_TYPE_UNIFORM_BUFFER
  | VK_DESCRIPTOR_TYPE_STORAGE_BUFFER
  | VK_DESCRIPTOR_TYPE_UNIFORM_BUFFER_DYNAMIC
  | VK_DESCRIPTOR_TYPE_STORAGE_BUFFER_DYNAMIC
  | VK_DESCRIPTOR_TYPE_INPUT_ATTACHMENT

datatype VkImageViewType =
    VK_IMAGE_VIEW_TYPE_1D
  | VK_IMAGE_VIEW_TYPE_2D
  | VK_IMAGE_VIEW_TYPE_3D
  | VK_IMAGE_VIEW_TYPE_CUBE
  | VK_IMAGE_VIEW_TYPE_1D_ARRAY
  | VK_IMAGE_VIEW_TYPE_2D_ARRAY
  | VK_IMAGE_VIEW_TYPE_CUBE_ARRAY
  | VK_IMAGE_VIEW_TYPE_MAX_ENUM

type_synonym VkShaderStageFlags = "32 word"
type_synonym VkAccessFlags = "32 word"
type_synonym uint32_t = "32 word"

definition VK_SHADER_STAGE_VERTEX_BIT :: VkShaderStageFlags where
  "VK_SHADER_STAGE_VERTEX_BIT = 0x01"

definition VK_SHADER_STAGE_TESSELLATION_CONTROL_BIT :: VkShaderStageFlags where
  "VK_SHADER_STAGE_TESSELLATION_CONTROL_BIT = 0x02"

definition VK_SHADER_STAGE_TESSELLATION_EVALUATION_BIT :: VkShaderStageFlags where
  "VK_SHADER_STAGE_TESSELLATION_EVALUATION_BIT = 0x04"

definition VK_SHADER_STAGE_GEOMETRY_BIT :: VkShaderStageFlags where
  "VK_SHADER_STAGE_GEOMETRY_BIT = 0x08"

definition VK_SHADER_STAGE_FRAGMENT_BIT :: VkShaderStageFlags where
  "VK_SHADER_STAGE_FRAGMENT_BIT = 0x10"

definition VK_SHADER_STAGE_COMPUTE_BIT :: VkShaderStageFlags where
  "VK_SHADER_STAGE_COMPUTE_BIT = 0x20"

record VkPushConstantRange =
  stageFlags :: VkShaderStageFlags
  offset :: uint32_t
  size' :: uint32_t

section \<open>Descriptor set indices\<close>

text \<open>
  \<^verbatim>\<open>struct DxvkDescriptorSets\<close> of \<^verbatim>\<open>dxvk_pipelayout.h\<close>. The indices select one of the
  \<open>SetCount\<close> slots of a \<^verbatim>\<open>std::array\<close>; they are small constants and are kept as
  natural numbers.
\<close>

definition CsAll :: nat where "CsAll = 0"
definition FsViews :: nat where "FsViews = 0"
definition FsBuffers :: nat where "FsBuffers = 1"
definition VsAll :: nat where "VsAll = 2"
definition SetCount :: nat where "SetCount = 3"

text \<open>
  \<^verbatim>\<open>std::array<T, DxvkDescriptorSets::SetCount>\<close>: exactly three elements. The code only
  indexes it with a set index below \<open>SetCount\<close>; the last equation of each accessor
  covers index 2.
\<close>

datatype 'a set_array = SetArray 'a 'a 'a

fun at :: "'a set_array \<Rightarrow> nat \<Rightarrow> 'a" where
  "at (SetArray a b c) i = (if i = 0 then a else if i = 1 then b else c)"

fun put :: "'a set_array \<Rightarrow> nat \<Rightarrow> 'a \<Rightarrow> 'a set_array" where
  "put (SetArray a b c) i v =
     (if i = 0 then SetArray v b c else if i = 1 then SetArray a v c else SetArray a b v)"

section \<open>DxvkBindingInfo\<close>

record DxvkBindingInfo =
  descriptorType :: VkDescriptorType
  resourceBinding :: uint32_t
  viewType :: VkImageViewType
  stages :: VkShaderStageFlags
  access :: VkAccessFlags

definition computeSetIndex :: "DxvkBindingInfo \<Rightarrow> nat" where
  "computeSetIndex b =
     (if stages b AND VK_SHADER_STAGE_COMPUTE_BIT \<noteq> 0 then CsAll
      else if stages b AND VK_SHADER_STAGE_FRAGMENT_BIT \<noteq> 0 then
        (if descriptorType b = VK_DESCRIPTOR_TYPE_UNIFORM_BUFFER
          \<or> descriptorType b = VK_DESCRIPTOR_TYPE_STORAGE_BUFFER
         then FsBuffers
         else FsViews)
      else VsAll)"

definition canMerge :: "DxvkBindingInfo \<Rightarrow> DxvkBindingInfo \<Rightarrow> bool" where
  "canMerge this binding =
     (if stages this AND VK_SHADER_STAGE_FRAGMENT_BIT
         \<noteq> stages binding AND VK_SHADER_STAGE_FRAGMENT_BIT
      then False
      else descriptorType this = descriptorType binding
         \<and> resourceBinding this = resourceBinding binding
         \<and> viewType this = viewType binding)"

definition merge :: "DxvkBindingInfo \<Rightarrow> DxvkBindingInfo \<Rightarrow> DxvkBindingInfo" where
  "merge this binding =
     this\<lparr>stages := stages this OR stages binding,
          access := access this OR access binding\<rparr>"

definition eq :: "DxvkBindingInfo \<Rightarrow> DxvkBindingInfo \<Rightarrow> bool" where
  "eq this other =
     (descriptorType this = descriptorType other
    \<and> resourceBinding this = resourceBinding other
    \<and> viewType this = viewType other
    \<and> stages this = stages other
    \<and> access this = access other)"

section \<open>DxvkBindingLayout\<close>

record DxvkBindingLayout =
  m_bindings :: "DxvkBindingInfo list set_array"
  m_pushConst :: VkPushConstantRange

text \<open>The constructor: empty sets and \<^verbatim>\<open>m_pushConst { 0, 0, 0 }\<close>.\<close>

definition DxvkBindingLayout_new :: DxvkBindingLayout where
  "DxvkBindingLayout_new =
     \<lparr>m_bindings = SetArray [] [] [],
      m_pushConst = \<lparr>stageFlags = 0, offset = 0, size' = 0\<rparr>\<rparr>"

text \<open>
  The loop of \<^verbatim>\<open>addBinding\<close> over one set: the first entry that can be merged with the
  new binding absorbs it and the loop returns; \<open>None\<close> when the loop runs to its end.
\<close>

fun mergeInto :: "DxvkBindingInfo list \<Rightarrow> DxvkBindingInfo \<Rightarrow> DxvkBindingInfo list option" where
  "mergeInto [] binding = None"
| "mergeInto (b # bs) binding =
     (if canMerge b binding then Some (merge b binding # bs)
      else map_option ((#) b) (mergeInto bs binding))"

definition addBinding :: "DxvkBindingLayout \<Rightarrow> DxvkBindingInfo \<Rightarrow> DxvkBindingLayout" where
  "addBinding this binding =
     (let set_idx = computeSetIndex binding;
          entries = at (m_bindings this) set_idx
      in case mergeInto entries binding of
           Some entries' \<Rightarrow> this\<lparr>m_bindings := put (m_bindings this) set_idx entries'\<rparr>
         | None \<Rightarrow> this\<lparr>m_bindings := put (m_bindings this) set_idx (entries @ [binding])\<rparr>)"

definition addPushConstantRange ::
  "DxvkBindingLayout \<Rightarrow> VkPushConstantRange \<Rightarrow> DxvkBindingLayout" where
  "addPushConstantRange this rng =
     (let oldEnd = offset (m_pushConst this) + size' (m_pushConst this);
          newEnd = offset rng + size' rng;
          newFlags = stageFlags (m_pushConst this) OR stageFlags rng;
          newOffset = min (offset (m_pushConst this)) (offset rng)
      in this\<lparr>m_pushConst :=
           \<lparr>stageFlags = newFlags,
            offset = newOffset,
            size' = max oldEnd newEnd - newOffset\<rparr>\<rparr>)"

definition DxvkBindingLayout_merge ::
  "DxvkBindingLayout \<Rightarrow> DxvkBindingLayout \<Rightarrow> DxvkBindingLayout" where
  "DxvkBindingLayout_merge this layout =
     addPushConstantRange
       (fold (\<lambda>i acc. fold (\<lambda>binding acc'. addBinding acc' binding) (at (m_bindings layout) i) acc)
          [0..<SetCount] this)
       (m_pushConst layout)"

text \<open>
  \<^verbatim>\<open>DxvkBindingLayout::eq\<close>: first the sizes of all sets, then the entries one by one,
  then the push constant range.
\<close>

definition DxvkBindingLayout_eq :: "DxvkBindingLayout \<Rightarrow> DxvkBindingLayout \<Rightarrow> bool" where
  "DxvkBindingLayout_eq this other =
     (if list_ex (\<lambda>i. length (at (m_bindings this) i) \<noteq> length (at (m_bindings other) i))
           [0..<SetCount]
      then False
      else if list_ex (\<lambda>i. list_ex (\<lambda>j. \<not> eq (at (m_bindings this) i ! j) (at (m_bindings other) i ! j))
                          [0..<length (at (m_bindings this) i)])
           [0..<SetCount]
      then False
      else if stageFlags (m_pushConst this) \<noteq> stageFlags (m_pushConst other)
            \<or> offset (m_pushConst this) \<noteq> offset (m_pushConst other)
            \<or> size' (m_pushConst this) \<noteq> size' (m_pushConst other)
      then False
      else True)"

text \<open>The accessors \<^verbatim>\<open>getBindingCount\<close> (with its cast to \<^verbatim>\<open>uint32_t\<close>) and \<^verbatim>\<open>getBinding\<close>.\<close>

definition getBindingCount :: "DxvkBindingLayout \<Rightarrow> nat \<Rightarrow> uint32_t" where
  "getBindingCount this set_idx = of_nat (length (at (m_bindings this) set_idx))"

definition getBinding :: "DxvkBindingLayout \<Rightarrow> nat \<Rightarrow> nat \<Rightarrow> DxvkBindingInfo" where
  "getBinding this set_idx idx = at (m_bindings this) set_idx ! idx"

definition getPushConstantRange :: "DxvkBindingLayout \<Rightarrow> VkPushConstantRange" where
  "getPushConstantRange this = m_pushConst this"

subsection \<open>Sequences of layout operations\<close>

text \<open>
  A layout is built from the constructor by the public mutators. \<open>run_ops\<close> applies a
  sequence of them, in order, to a fresh layout.
\<close>

datatype layout_op =
    AddBinding DxvkBindingInfo
  | AddPushConstantRange VkPushConstantRange
  | Merge DxvkBindingLayout

fun run_op :: "DxvkBindingLayout \<Rightarrow> layout_op \<Rightarrow> DxvkBindingLayout" where
  "run_op l (AddBinding b) = addBinding l b"
| "run_op l (AddPushConstantRange r) = addPushConstantRange l r"
| "run_op l (Merge other) = DxvkBindingLayout_merge l other"

definition run_ops :: "layout_op list \<Rightarrow> DxvkBindingLayout" where
  "run_ops ops = fold (\<lambda>op l. run_op l op) ops DxvkBindingLayout_new"

definition addPushConstantRanges :: "VkPushConstantRange list \<Rightarrow> DxvkBindingLayout" where
  "addPushConstantRanges rs = fold (\<lambda>r l. addPushConstantRange l r) rs DxvkBindingLayout_new"

text \<open>
  What a sequence of ranges adds up to: the disjunction of the stage masks, and the
  largest end \<^verbatim>\<open>offset + size\<close>, computed in \<^verbatim>\<open>uint32_t\<close> as the code does, starting
  from the end 0 of the constructor's range.
\<close>

definition ranges_stageFlags :: "VkPushConstantRange list \<Rightarrow> VkShaderStageFlags" where
  "ranges_stageFlags rs = fold (\<lambda>r f. f OR stageFlags r) rs 0"

definition ranges_end :: "VkPushConstantRange list \<Rightarrow> uint32_t" where
  "ranges_end rs = fold (\<lambda>r e. max e (offset r + size' r)) rs 0"

text \<open>
  The reading of the offset as the least offset among the ranges added, for a sequence
  that is not empty (0 for the empty one).
\<close>

definition least_offset :: "VkPushConstantRange list \<Rightarrow> uint32_t" where
  "least_offset rs =
     (case rs of [] \<Rightarrow> 0 | r # rest \<Rightarrow> fold (\<lambda>r' m. min m (offset r')) rest (offset r))"

text \<open>
  The part of a binding that \<^verbatim>\<open>canMerge\<close> compares: presence of the fragment stage
  (bit 4 of the stage mask), descriptor type, resource binding slot and view type.
\<close>

definition merge_key ::
  "DxvkBindingInfo \<Rightarrow> bool \<times> VkDescriptorType \<times> uint32_t \<times> VkImageViewType" where
  "merge_key b = (bit (stages b) 4, descriptorType b, resourceBinding b, viewType b)"

definition sets_distinct :: "DxvkBindingLayout \<Rightarrow> bool" where
  "sets_distinct l = (\<forall>s<SetCount. distinct (map merge_key (at (m_bindings l) s)))"

section \<open>DxvkDescriptorSlotMapping\<close>

text \<open>
  \<^verbatim>\<open>struct DxvkDescriptorSlot\<close>. Its fields \<^verbatim>\<open>slot\<close>, \<^verbatim>\<open>type\<close>, \<^verbatim>\<open>view\<close>, \<^verbatim>\<open>stages\<close> and
  \<^verbatim>\<open>access\<close> carry the prefix \<open>ds_\<close> here, since two of them are fields of
  \<open>DxvkBindingInfo\<close> already.
\<close>

record DxvkDescriptorSlot =
  ds_slot :: uint32_t
  ds_type :: VkDescriptorType
  ds_view :: VkImageViewType
  ds_stages :: VkShaderStageFlags
  ds_access :: VkAccessFlags

record DxvkDescriptorSlotMapping =
  m_descriptorSlots :: "DxvkDescriptorSlot list"
  m_pushConstRange :: VkPushConstantRange

definition bindingCount :: "DxvkDescriptorSlotMapping \<Rightarrow> uint32_t" where
  "bindingCount this = of_nat (length (m_descriptorSlots this))"

definition countDescriptors :: "DxvkDescriptorSlotMapping \<Rightarrow> VkDescriptorType \<Rightarrow> uint32_t" where
  "countDescriptors this ty =
     fold (\<lambda>slot count. count + (if ds_type slot = ty then 1 else 0)) (m_descriptorSlots this) 0"

definition replaceDescriptors ::
  "DxvkDescriptorSlotMapping \<Rightarrow> VkDescriptorType \<Rightarrow> VkDescriptorType \<Rightarrow> DxvkDescriptorSlotMapping" where
  "replaceDescriptors this oldType newType =
     this\<lparr>m_descriptorSlots :=
       map (\<lambda>slot. if ds_type slot = oldType then slot\<lparr>ds_type := newType\<rparr> else slot)
         (m_descriptorSlots this)\<rparr>"

definition makeDescriptorsDynamic ::
  "DxvkDescriptorSlotMapping \<Rightarrow> uint32_t \<Rightarrow> uint32_t \<Rightarrow> DxvkDescriptorSlotMapping" where
  "makeDescriptorsDynamic this uniformBuffers storageBuffers =
     (if countDescriptors this VK_DESCRIPTOR_TYPE_UNIFORM_BUFFER \<le> uniformBuffers
      then replaceDescriptors this VK_DESCRIPTOR_TYPE_UNIFORM_BUFFER
             VK_DESCRIPTOR_TYPE_UNIFORM_BUFFER_DYNAMIC
      else this)"

section \<open>The Vulkan device\<close>

text \<open>
  The constructors call the device to create and destroy native objects. The device is
  a state: the native objects that exist, the number of handles given out so far, and
  the results the driver will give to the coming creation calls (a call finding this
  list empty succeeds). A handle is a number; \<open>VK_NULL_HANDLE\<close> is 0 and every handle
  the device gives out is positive. The contents of the create-info structures have no
  influence on which objects exist and are left out.
\<close>

datatype VkResult = VK_SUCCESS | VK_ERROR_OUT_OF_HOST_MEMORY | VK_ERROR_OUT_OF_DEVICE_MEMORY

type_synonym VkHandle = nat

definition VK_NULL_HANDLE :: VkHandle where
  "VK_NULL_HANDLE = 0"

datatype VkObject =
    DescriptorSetLayout VkHandle
  | DescriptorUpdateTemplate VkHandle
  | PipelineLayout VkHandle

record VkDevice =
  liveObjects :: "VkObject list"
  handleCount :: nat
  driverResults :: "VkResult list"

definition vkCreate :: "(VkHandle \<Rightarrow> VkObject) \<Rightarrow> VkDevice \<Rightarrow> VkResult \<times> VkHandle \<times> VkDevice" where
  "vkCreate kind dev =
     (let res = (case driverResults dev of [] \<Rightarrow> VK_SUCCESS | r # rs \<Rightarrow> r);
          dev' = dev\<lparr>driverResults := tl (driverResults dev)\<rparr>
      in if res = VK_SUCCESS
         then (VK_SUCCESS, Suc (handleCount dev),
               dev'\<lparr>liveObjects := kind (Suc (handleCount dev)) # liveObjects dev,
                    handleCount := Suc (handleCount dev)\<rparr>)
         else (res, VK_NULL_HANDLE, dev'))"

definition vkDestroy :: "(VkHandle \<Rightarrow> VkObject) \<Rightarrow> VkDevice \<Rightarrow> VkHandle \<Rightarrow> VkDevice" where
  "vkDestroy kind dev h =
     (if h = VK_NULL_HANDLE then dev
      else dev\<lparr>liveObjects := remove1 (kind h) (liveObjects dev)\<rparr>)"

definition vkCreateDescriptorSetLayout :: "VkDevice \<Rightarrow> VkResult \<times> VkHandle \<times> VkDevice" where
  "vkCreateDescriptorSetLayout = vkCreate DescriptorSetLayout"

definition vkCreateDescriptorUpdateTemplate :: "VkDevice \<Rightarrow> VkResult \<times> VkHandle \<times> VkDevice" where
  "vkCreateDescriptorUpdateTemplate = vkCreate DescriptorUpdateTemplate"

definition vkCreatePipelineLayout :: "VkDevice \<Rightarrow> VkResult \<times> VkHandle \<times> VkDevice" where
  "vkCreatePipelineLayout = vkCreate PipelineLayout"

definition vkDestroyDescriptorSetLayout :: "VkDevice \<Rightarrow> VkHandle \<Rightarrow> VkDevice" where
  "vkDestroyDescriptorSetLayout = vkDestroy DescriptorSetLayout"

definition vkDestroyDescriptorUpdateTemplate :: "VkDevice \<Rightarrow> VkHandle \<Rightarrow> VkDevice" where
  "vkDestroyDescriptorUpdateTemplate = vkDestroy DescriptorUpdateTemplate"

definition vkDestroyPipelineLayout :: "VkDevice \<Rightarrow> VkHandle \<Rightarrow> VkDevice" where
  "vkDestroyPipelineLayout = vkDestroy PipelineLayout"

text \<open>A device on which nothing has been created yet, with the given driver results.\<close>

definition newDevice :: "VkResult list \<Rightarrow> VkDevice" where
  "newDevice rs = \<lparr>liveObjects = [], handleCount = 0, driverResults = rs\<rparr>"

datatype DxvkError = DxvkError string

text \<open>
  How a constructor ends without an object: by throwing, or by a write behind the end of
  a \<^verbatim>\<open>std::array\<close>. The behaviour of the program is undefined from such a write on; a run
  of the model stops there with \<open>OutOfBounds\<close>, and nothing is said about what follows.
\<close>

datatype failure = Thrown DxvkError | OutOfBounds

section \<open>DxvkBindingLayoutObjects\<close>

record DxvkBindingMapping =
  set' :: uint32_t
  binding :: uint32_t
  constId :: uint32_t

record DxvkBindingLayoutObjects =
  m_layout :: DxvkBindingLayout
  m_pipelineLayout :: VkHandle
  m_setMask :: uint32_t
  m_setLayouts :: "VkHandle set_array"
  m_setTemplates :: "VkHandle set_array"
  m_bindingOffsets :: "uint32_t set_array"
  m_mapping :: "uint32_t \<rightharpoonup> DxvkBindingMapping"

text \<open>\<^verbatim>\<open>std::unordered_map::insert\<close> keeps the stored entry when the key is present.\<close>

definition umap_insert :: "('k \<rightharpoonup> 'v) \<Rightarrow> 'k \<Rightarrow> 'v \<Rightarrow> ('k \<rightharpoonup> 'v)" where
  "umap_insert m k v = (case m k of None \<Rightarrow> m(k \<mapsto> v) | Some old \<Rightarrow> m)"

text \<open>
  The entries of the two arrays \<^verbatim>\<open>bindingInfos\<close> and \<^verbatim>\<open>templateInfos\<close> that the constructor
  fills. The fields carry the prefixes \<open>lb_\<close> and \<open>te_\<close>, their names being fields of the
  records above. \<^verbatim>\<open>pImmutableSamplers\<close> is always null and is left out. The offset and the
  stride of a template entry are counted in units of \<^verbatim>\<open>sizeof(DxvkDescriptorInfo)\<close>, a
  size that is declared in a header not among the sources at hand.
\<close>

record VkDescriptorSetLayoutBinding =
  lb_binding :: uint32_t
  lb_descriptorType :: VkDescriptorType
  lb_descriptorCount :: uint32_t
  lb_stageFlags :: VkShaderStageFlags

record VkDescriptorUpdateTemplateEntry =
  te_dstBinding :: uint32_t
  te_dstArrayElement :: uint32_t
  te_descriptorCount :: uint32_t
  te_descriptorType :: VkDescriptorType
  te_offset :: nat
  te_stride :: nat

text \<open>
  The two local arrays of the constructor, \<^verbatim>\<open>std::array<..., MaxNumActiveBindings>\<close>: lists
  of that length, whose entries are \<open>None\<close> until they are written.
\<close>

record local_arrays =
  bindingInfos :: "VkDescriptorSetLayoutBinding option list"
  templateInfos :: "VkDescriptorUpdateTemplateEntry option list"

text \<open>
  The body of the inner loop of the constructor, for binding \<open>j\<close> of set \<open>i\<close>: it writes
  entry \<open>j\<close> of both arrays, without a check of \<open>j\<close> against their size, and inserts the
  mapping with the running \<^verbatim>\<open>constId\<close>. \<open>None\<close> is the write behind the end of the arrays.
\<close>

definition bindingStep ::
  "DxvkBindingLayout \<Rightarrow> nat \<Rightarrow> nat
     \<Rightarrow> local_arrays \<times> (uint32_t \<rightharpoonup> DxvkBindingMapping) \<times> uint32_t
     \<Rightarrow> (local_arrays \<times> (uint32_t \<rightharpoonup> DxvkBindingMapping) \<times> uint32_t) option" where
  "bindingStep layout i j st =
     (case st of (arrays, mapping, cid) \<Rightarrow>
       (let b = getBinding layout i j
        in if j < length (bindingInfos arrays) \<and> j < length (templateInfos arrays)
           then Some
             (arrays\<lparr>bindingInfos := (bindingInfos arrays)
                        [j := Some \<lparr>lb_binding = of_nat j,
                                    lb_descriptorType = descriptorType b,
                                    lb_descriptorCount = 1,
                                    lb_stageFlags = stages b\<rparr>],
                     templateInfos := (templateInfos arrays)
                        [j := Some \<lparr>te_dstBinding = of_nat j,
                                    te_dstArrayElement = 0,
                                    te_descriptorCount = 1,
                                    te_descriptorType = descriptorType b,
                                    te_offset = j,
                                    te_stride = 1\<rparr>]\<rparr>,
              umap_insert mapping (resourceBinding b)
                \<lparr>set' = of_nat i, binding = of_nat j, constId = cid\<rparr>,
              cid + 1)
           else None))"

definition bindingLoop ::
  "DxvkBindingLayout \<Rightarrow> nat
     \<Rightarrow> local_arrays \<times> (uint32_t \<rightharpoonup> DxvkBindingMapping) \<times> uint32_t
     \<Rightarrow> (local_arrays \<times> (uint32_t \<rightharpoonup> DxvkBindingMapping) \<times> uint32_t) option" where
  "bindingLoop layout i st =
     fold (\<lambda>j acc. Option.bind acc (bindingStep layout i j))
       [0..<unat (getBindingCount layout i)] (Some st)"

text \<open>
  One round of the outer loop, for set \<open>i\<close>. A failed creation throws: the result is the
  error and the device as it is at that moment.
\<close>

definition createSet ::
  "nat \<Rightarrow> DxvkBindingLayoutObjects \<times> uint32_t \<times> local_arrays \<times> VkDevice
     \<Rightarrow> (failure + DxvkBindingLayoutObjects \<times> uint32_t \<times> local_arrays) \<times> VkDevice" where
  "createSet i st =
     (case st of (this, cid, arrays, dev) \<Rightarrow>
       (let this1 = this\<lparr>m_bindingOffsets := put (m_bindingOffsets this) i cid\<rparr>;
            count = getBindingCount (m_layout this1) i
        in case bindingLoop (m_layout this1) i (arrays, m_mapping this1, cid) of
             None \<Rightarrow> (Inl OutOfBounds, dev)
           | Some (arrays', mapping, cid') \<Rightarrow>
              (let this2 = this1\<lparr>m_mapping := mapping\<rparr>;
                   (res, h, dev1) = vkCreateDescriptorSetLayout dev
               in if res \<noteq> VK_SUCCESS
                  then (Inl (Thrown (DxvkError ''DxvkBindingLayoutObjects: Failed to create descriptor set layout'')), dev1)
                  else
                    (let this3 = this2\<lparr>m_setLayouts := put (m_setLayouts this2) i h\<rparr>
                     in if count \<noteq> 0
                        then
                          (let (res2, t, dev2) = vkCreateDescriptorUpdateTemplate dev1
                           in if res2 \<noteq> VK_SUCCESS
                              then (Inl (Thrown (DxvkError ''DxvkBindingLayoutObjects: Failed to create descriptor update template'')), dev2)
                              else (Inr (this3\<lparr>m_setTemplates := put (m_setTemplates this3) i t,
                                               m_setMask := m_setMask this3 OR push_bit i 1\<rparr>,
                                         cid', arrays'), dev2))
                        else (Inr (this3, cid', arrays'), dev1)))))"

fun setLoop ::
  "nat list \<Rightarrow> DxvkBindingLayoutObjects \<times> uint32_t \<times> local_arrays \<times> VkDevice
     \<Rightarrow> (failure + DxvkBindingLayoutObjects \<times> uint32_t \<times> local_arrays) \<times> VkDevice" where
  "setLoop [] st = (case st of (this, cid, arrays, dev) \<Rightarrow> (Inr (this, cid, arrays), dev))"
| "setLoop (i # rest) st =
     (case createSet i st of
        (Inl e, dev') \<Rightarrow> (Inl e, dev')
      | (Inr (this', cid', arrays'), dev') \<Rightarrow> setLoop rest (this', cid', arrays', dev'))"

text \<open>
  The constructor. \<^verbatim>\<open>MaxNumActiveBindings\<close>, the size of the two local arrays, is declared
  in \<^verbatim>\<open>dxvk_limits.h\<close>, which is not among the sources at hand, and is a parameter. An
  exception leaving a C++ constructor does not run the destructor of the object under
  construction, and the members holding the handles are plain values: the device the
  caller is left with is the one at the \<^verbatim>\<open>throw\<close>.
\<close>

definition DxvkBindingLayoutObjects_new ::
  "nat \<Rightarrow> VkDevice \<Rightarrow> DxvkBindingLayout \<Rightarrow> (failure + DxvkBindingLayoutObjects) \<times> VkDevice" where
  "DxvkBindingLayoutObjects_new MaxNumActiveBindings device layout =
     (let this0 = \<lparr>m_layout = layout,
                   m_pipelineLayout = VK_NULL_HANDLE,
                   m_setMask = 0,
                   m_setLayouts = SetArray VK_NULL_HANDLE VK_NULL_HANDLE VK_NULL_HANDLE,
                   m_setTemplates = SetArray VK_NULL_HANDLE VK_NULL_HANDLE VK_NULL_HANDLE,
                   m_bindingOffsets = SetArray 0 0 0,
                   m_mapping = Map.empty\<rparr>;
          arrays = \<lparr>bindingInfos = replicate MaxNumActiveBindings None,
                    templateInfos = replicate MaxNumActiveBindings None\<rparr>
      in case setLoop [0..<SetCount] (this0, 0, arrays, device) of
           (Inl e, dev') \<Rightarrow> (Inl e, dev')
         | (Inr (this1, cid, arrays1), dev1) \<Rightarrow>
             (let (res, h, dev2) = vkCreatePipelineLayout dev1
              in if res \<noteq> VK_SUCCESS
                 then (Inl (Thrown (DxvkError ''DxvkBindingLayoutObjects: Failed to create pipeline layout'')), dev2)
                 else (Inr (this1\<lparr>m_pipelineLayout := h\<rparr>), dev2)))"

text \<open>The destructor: the pipeline layout, then the layout and the template of each set.\<close>

definition DxvkBindingLayoutObjects_delete :: "VkDevice \<Rightarrow> DxvkBindingLayoutObjects \<Rightarrow> VkDevice" where
  "DxvkBindingLayoutObjects_delete device this =
     fold (\<lambda>i dev. vkDestroyDescriptorUpdateTemplate
                     (vkDestroyDescriptorSetLayout dev (at (m_setLayouts this) i))
                     (at (m_setTemplates this) i))
       [0..<SetCount]
       (vkDestroyPipelineLayout device (m_pipelineLayout this))"

definition lookupBinding :: "DxvkBindingLayoutObjects \<Rightarrow> uint32_t \<Rightarrow> DxvkBindingMapping option" where
  "lookupBinding this index = (case m_mapping this index of Some entry \<Rightarrow> Some entry | None \<Rightarrow> None)"

text \<open>The resource binding slots of the entries of one set of a layout.\<close>

definition set_slots :: "DxvkBindingLayout \<Rightarrow> nat \<Rightarrow> uint32_t list" where
  "set_slots layout i = map resourceBinding (at (m_bindings layout) i)"

text \<open>
  The position of the first occurrence of a slot in a list of slots, and the mappings
  that the bindings of set \<open>i\<close>, numbered from \<open>cid\<close> on, stand for: each slot is mapped
  to its first occurrence in the set.
\<close>

fun first_index :: "'a \<Rightarrow> 'a list \<Rightarrow> nat option" where
  "first_index x [] = None"
| "first_index x (y # ys) = (if y = x then Some 0 else map_option Suc (first_index x ys))"

definition slots_mapping :: "nat \<Rightarrow> uint32_t \<Rightarrow> uint32_t list \<Rightarrow> (uint32_t \<rightharpoonup> DxvkBindingMapping)" where
  "slots_mapping i cid slots slot =
     map_option (\<lambda>j. \<lparr>set' = of_nat i, binding = of_nat j, constId = cid + of_nat j\<rparr>)
       (first_index slot slots)"

section \<open>DxvkPipelineLayout, the single-set layout\<close>

text \<open>The decimal digits of a number, as \<^verbatim>\<open>str::format\<close> writes it into a message.\<close>

fun decimal :: "nat \<Rightarrow> string" where
  "decimal n =
     (if n < 10 then [''0123456789'' ! n]
      else decimal (n div 10) @ [''0123456789'' ! (n mod 10)])"

declare decimal.simps [simp del]

text \<open>
  The members \<^verbatim>\<open>m_pushConstRange\<close> and \<^verbatim>\<open>m_pipelineLayout\<close> carry the prefix \<open>pl_\<close>,
  the names being taken by the records above.
\<close>

record DxvkPipelineLayout =
  pl_pushConstRange :: VkPushConstantRange
  m_descriptorSetLayout :: VkHandle
  pl_pipelineLayout :: VkHandle
  m_descriptorTemplate :: VkHandle
  m_bindingSlots :: "DxvkDescriptorSlot list"
  m_dynamicSlots :: "uint32_t list"
  m_descriptorTypes :: "VkDescriptorType set"

text \<open>
  The constructor. \<^verbatim>\<open>MaxNumActiveBindings\<close> is declared in \<^verbatim>\<open>dxvk_limits.h\<close>, which is not
  among the sources at hand, and is a parameter. The bind point only travels into the
  create-info of the update template.
\<close>

definition DxvkPipelineLayout_new ::
  "nat \<Rightarrow> VkDevice \<Rightarrow> DxvkDescriptorSlotMapping \<Rightarrow> (DxvkError + DxvkPipelineLayout) \<times> VkDevice" where
  "DxvkPipelineLayout_new MaxNumActiveBindings vkd slotMapping =
     (let count = bindingCount slotMapping;
          bindingInfos = m_descriptorSlots slotMapping
      in if MaxNumActiveBindings < unat count
         then (Inl (DxvkError (''Too many active bindings in pipeline layout ('' @ decimal (unat count) @ '')'')), vkd)
         else
          (let this0 = \<lparr>pl_pushConstRange = m_pushConstRange slotMapping,
                        m_descriptorSetLayout = VK_NULL_HANDLE,
                        pl_pipelineLayout = VK_NULL_HANDLE,
                        m_descriptorTemplate = VK_NULL_HANDLE,
                        m_bindingSlots = map (\<lambda>i. bindingInfos ! i) [0..<unat count],
                        m_dynamicSlots =
                          map of_nat
                            (filter (\<lambda>i. ds_type (bindingInfos ! i) = VK_DESCRIPTOR_TYPE_UNIFORM_BUFFER_DYNAMIC)
                               [0..<unat count]),
                        m_descriptorTypes = set (map (\<lambda>i. ds_type (bindingInfos ! i)) [0..<unat count])\<rparr>;
               (res1, this1, vkd1) =
                 (if 0 < count
                  then (let (res, h, d) = vkCreateDescriptorSetLayout vkd
                        in (res, this0\<lparr>m_descriptorSetLayout := h\<rparr>, d))
                  else (VK_SUCCESS, this0, vkd))
           in if res1 \<noteq> VK_SUCCESS
              then (Inl (DxvkError ''DxvkPipelineLayout: Failed to create descriptor set layout''), vkd1)
              else
               (let (res2, p, vkd2) = vkCreatePipelineLayout vkd1
                in if res2 \<noteq> VK_SUCCESS
                   then (Inl (DxvkError ''DxvkPipelineLayout: Failed to create pipeline layout''),
                         vkDestroyDescriptorSetLayout vkd2 (m_descriptorSetLayout this1))
                   else
                    (let this2 = this1\<lparr>pl_pipelineLayout := p\<rparr>
                     in if 0 < count
                        then
                         (let (res3, t, vkd3) = vkCreateDescriptorUpdateTemplate vkd2
                          in if res3 \<noteq> VK_SUCCESS
                             then (Inl (DxvkError ''DxvkPipelineLayout: Failed to create descriptor update template''),
                                   vkDestroyPipelineLayout
                                     (vkDestroyDescriptorSetLayout vkd3 (m_descriptorSetLayout this2))
                                     (pl_pipelineLayout this2))
                             else (Inr (this2\<lparr>m_descriptorTemplate := t\<rparr>), vkd3))
                        else (Inr this2, vkd2)))))"

section \<open>DxvkPipelineManager\<close>

text \<open>
  A shader is referred to by its address (\<^verbatim>\<open>Rc<DxvkShader>\<close>); \<open>None\<close> is \<^verbatim>\<open>nullptr\<close>. The
  shader class is not among the sources at hand: \<^verbatim>\<open>getBindings\<close>, giving the binding
  layout of the shader at an address, is a parameter of the creation functions.
\<close>

type_synonym DxvkShader = nat

text \<open>
  Modelled from the spec: the shader sets \<^verbatim>\<open>DxvkComputePipelineShaders\<close> and
  \<^verbatim>\<open>DxvkGraphicsPipelineShaders\<close> (declared in headers that are not among the sources at
  hand) are the compute shader, and the tuple of vertex, tessellation control,
  tessellation evaluation, geometry and fragment shader, where stage slots may be null.
  They are compared by the identities of the shaders, which is equality of these records.
\<close>

record DxvkComputePipelineShaders =
  cs :: "DxvkShader option"

record DxvkGraphicsPipelineShaders =
  vs :: "DxvkShader option"
  tcs :: "DxvkShader option"
  tes :: "DxvkShader option"
  gs :: "DxvkShader option"
  fs :: "DxvkShader option"

text \<open>
  Modelled from the spec: the caches \<^verbatim>\<open>m_pipelineLayouts\<close>, \<^verbatim>\<open>m_computePipelines\<close> and
  \<^verbatim>\<open>m_graphicsPipelines\<close> are declared in \<^verbatim>\<open>dxvk_pipemanager.h\<close>, which is not among the
  sources at hand. They are \<^verbatim>\<open>std::unordered_map\<close>s that only grow; the layout objects
  are keyed by the binding layout, compared with \<^verbatim>\<open>DxvkBindingLayout::eq\<close>, the pipelines
  by their shader sets. Such a map is the list of its entries in the order of insertion.
  A lookup finds the entry with an equal key (the hash, a function of the compared
  fields, only selects the bucket). The address of an entry, which the creation
  functions return, is its position in that list, and never changes.
\<close>

type_synonym ('k, 'v) unordered_map = "('k \<times> 'v) list"

fun umap_find :: "('k \<Rightarrow> 'k \<Rightarrow> bool) \<Rightarrow> 'k \<Rightarrow> ('k, 'v) unordered_map \<Rightarrow> nat option" where
  "umap_find key_eq k [] = None"
| "umap_find key_eq k (e # es) =
     (if key_eq (fst e) k then Some 0 else map_option Suc (umap_find key_eq k es))"

text \<open>
  Modelled from the spec: the pipeline classes \<^verbatim>\<open>DxvkComputePipeline\<close> and
  \<^verbatim>\<open>DxvkGraphicsPipeline\<close> (their constructors are not among the sources at hand) are
  constructed from the shader set and the reference to the layout objects, and keep both.
\<close>

record DxvkComputePipeline =
  cp_shaders :: DxvkComputePipelineShaders
  cp_layout :: nat

record DxvkGraphicsPipeline =
  gp_shaders :: DxvkGraphicsPipelineShaders
  gp_layout :: nat

record DxvkPipelineManager =
  m_device :: VkDevice
  m_pipelineLayouts :: "(DxvkBindingLayout, DxvkBindingLayoutObjects) unordered_map"
  m_computePipelines :: "(DxvkComputePipelineShaders, DxvkComputePipeline) unordered_map"
  m_graphicsPipelines :: "(DxvkGraphicsPipelineShaders, DxvkGraphicsPipeline) unordered_map"

definition DxvkPipelineManager_new :: "VkDevice \<Rightarrow> DxvkPipelineManager" where
  "DxvkPipelineManager_new device =
     \<lparr>m_device = device, m_pipelineLayouts = [], m_computePipelines = [], m_graphicsPipelines = []\<rparr>"

text \<open>
  \<^verbatim>\<open>createPipelineLayout\<close>. The key of \<^verbatim>\<open>m_pipelineLayouts\<close> is compared with
  \<^verbatim>\<open>DxvkBindingLayout::eq\<close>. When the constructor of the new entry throws, \<^verbatim>\<open>emplace\<close>
  leaves the map as it was.
\<close>

definition createPipelineLayout ::
  "nat \<Rightarrow> DxvkPipelineManager \<Rightarrow> DxvkBindingLayout \<Rightarrow> (failure + nat) \<times> DxvkPipelineManager" where
  "createPipelineLayout MaxNumActiveBindings this layout =
     (case umap_find DxvkBindingLayout_eq layout (m_pipelineLayouts this) of
        Some pair \<Rightarrow> (Inr pair, this)
      | None \<Rightarrow>
         (case DxvkBindingLayoutObjects_new MaxNumActiveBindings (m_device this) layout of
            (Inl e, dev') \<Rightarrow> (Inl e, this\<lparr>m_device := dev'\<rparr>)
          | (Inr objects, dev') \<Rightarrow>
              (Inr (length (m_pipelineLayouts this)),
               this\<lparr>m_device := dev',
                    m_pipelineLayouts := m_pipelineLayouts this @ [(layout, objects)]\<rparr>)))"

text \<open>
  The creation functions return \<open>Inr None\<close> for \<^verbatim>\<open>nullptr\<close>, \<open>Inr (Some p)\<close> for the address
  \<open>p\<close> of a cache entry, and \<open>Inl e\<close> when the construction of the layout objects ends
  with the failure \<open>e\<close>, which then leaves the function. \<^verbatim>\<open>MaxNumActiveBindings\<close> is the
  parameter of that constructor. The
  mutex is held from the lookup to the return, so that calls run one after another.
\<close>

definition createComputePipeline ::
  "nat \<Rightarrow> (DxvkShader \<Rightarrow> DxvkBindingLayout) \<Rightarrow> DxvkPipelineManager \<Rightarrow> DxvkComputePipelineShaders
     \<Rightarrow> (failure + nat option) \<times> DxvkPipelineManager" where
  "createComputePipeline MaxNumActiveBindings getBindings this shaders =
     (case cs shaders of
        None \<Rightarrow> (Inr None, this)
      | Some c \<Rightarrow>
         (case umap_find (=) shaders (m_computePipelines this) of
            Some pair \<Rightarrow> (Inr (Some pair), this)
          | None \<Rightarrow>
             (case createPipelineLayout MaxNumActiveBindings this (getBindings c) of
                (Inl e, this') \<Rightarrow> (Inl e, this')
              | (Inr layout, this') \<Rightarrow>
                  (Inr (Some (length (m_computePipelines this'))),
                   this'\<lparr>m_computePipelines := m_computePipelines this'
                            @ [(shaders, \<lparr>cp_shaders = shaders, cp_layout = layout\<rparr>)]\<rparr>))))"

text \<open>The layout merged from the stages that are present, in the order of the code.\<close>

definition mergeStage ::
  "(DxvkShader \<Rightarrow> DxvkBindingLayout) \<Rightarrow> DxvkShader option \<Rightarrow> DxvkBindingLayout \<Rightarrow> DxvkBindingLayout" where
  "mergeStage getBindings shader mergedLayout =
     (case shader of
        None \<Rightarrow> mergedLayout
      | Some sh \<Rightarrow> DxvkBindingLayout_merge mergedLayout (getBindings sh))"

definition mergedLayout ::
  "(DxvkShader \<Rightarrow> DxvkBindingLayout) \<Rightarrow> DxvkGraphicsPipelineShaders \<Rightarrow> DxvkBindingLayout" where
  "mergedLayout getBindings shaders =
     mergeStage getBindings (fs shaders)
       (mergeStage getBindings (gs shaders)
         (mergeStage getBindings (tes shaders)
           (mergeStage getBindings (tcs shaders)
             (mergeStage getBindings (vs shaders) DxvkBindingLayout_new))))"

definition createGraphicsPipeline ::
  "nat \<Rightarrow> (DxvkShader \<Rightarrow> DxvkBindingLayout) \<Rightarrow> DxvkPipelineManager \<Rightarrow> DxvkGraphicsPipelineShaders
     \<Rightarrow> (failure + nat option) \<times> DxvkPipelineManager" where
  "createGraphicsPipeline MaxNumActiveBindings getBindings this shaders =
     (case vs shaders of
        None \<Rightarrow> (Inr None, this)
      | Some v \<Rightarrow>
         (case umap_find (=) shaders (m_graphicsPipelines this) of
            Some pair \<Rightarrow> (Inr (Some pair), this)
          | None \<Rightarrow>
             (case createPipelineLayout MaxNumActiveBindings this (mergedLayout getBindings shaders) of
                (Inl e, this') \<Rightarrow> (Inl e, this')
              | (Inr layout, this') \<Rightarrow>
                  (Inr (Some (length (m_graphicsPipelines this'))),
                   this'\<lparr>m_graphicsPipelines := m_graphicsPipelines this'
                            @ [(shaders, \<lparr>gp_shaders = shaders, gp_layout = layout\<rparr>)]\<rparr>))))"

text \<open>The calls a manager receives, and the manager after a sequence of them.\<close>

datatype manager_call =
    CreateComputePipeline DxvkComputePipelineShaders
  | CreateGraphicsPipeline DxvkGraphicsPipelineShaders

fun run_call ::
  "nat \<Rightarrow> (DxvkShader \<Rightarrow> DxvkBindingLayout) \<Rightarrow> DxvkPipelineManager \<Rightarrow> manager_call
     \<Rightarrow> DxvkPipelineManager" where
  "run_call MaxNumActiveBindings getBindings this (CreateComputePipeline shaders) =
     snd (createComputePipeline MaxNumActiveBindings getBindings this shaders)"
| "run_call MaxNumActiveBindings getBindings this (CreateGraphicsPipeline shaders) =
     snd (createGraphicsPipeline MaxNumActiveBindings getBindings this shaders)"

definition run_calls ::
  "nat \<Rightarrow> (DxvkShader \<Rightarrow> DxvkBindingLayout) \<Rightarrow> VkDevice \<Rightarrow> manager_call list
     \<Rightarrow> DxvkPipelineManager" where
  "run_calls MaxNumActiveBindings getBindings device calls =
     fold (\<lambda>c this. run_call MaxNumActiveBindings getBindings this c) calls
       (DxvkPipelineManager_new device)"

text \<open>
  Every cached graphics pipeline refers to the entry of \<^verbatim>\<open>m_pipelineLayouts\<close> that a
  lookup of the merged layout of its shaders finds.
\<close>

definition layouts_resolved :: "(DxvkShader \<Rightarrow> DxvkBindingLayout) \<Rightarrow> DxvkPipelineManager \<Rightarrow> bool" where
  "layouts_resolved getBindings this =
     list_all (\<lambda>e. umap_find DxvkBindingLayout_eq (mergedLayout getBindings (fst e))
                      (m_pipelineLayouts this) = Some (gp_layout (snd e)))
       (m_graphicsPipelines this)"


section \<open>Bits of the stage mask\<close>

lemma and_single_bit:
  "(a::32 word) AND 2 ^ n = (if bit a n then 2 ^ n else 0)"
  by (rule bit_word_eqI) (auto simp: bit_and_iff bit_exp_iff)

lemma and_compute_bit: "(a::32 word) AND VK_SHADER_STAGE_COMPUTE_BIT \<noteq> 0 \<longleftrightarrow> bit a 5"
  using and_single_bit [of a 5] by (simp add: VK_SHADER_STAGE_COMPUTE_BIT_def)

lemma and_fragment_bit: "(a::32 word) AND VK_SHADER_STAGE_FRAGMENT_BIT \<noteq> 0 \<longleftrightarrow> bit a 4"
  using and_single_bit [of a 4] by (simp add: VK_SHADER_STAGE_FRAGMENT_BIT_def)

lemma and_fragment_bit_eq:
  "((a::32 word) AND VK_SHADER_STAGE_FRAGMENT_BIT = b AND VK_SHADER_STAGE_FRAGMENT_BIT)
     \<longleftrightarrow> (bit a 4 \<longleftrightarrow> bit b 4)"
  using and_single_bit [of a 4] and_single_bit [of b 4]
  by (simp add: VK_SHADER_STAGE_FRAGMENT_BIT_def)

section \<open>Placement of a binding\<close>

text \<open>
  Claim C2. \<open>computeSetIndex\<close> depends on the stage mask and the descriptor type only:
  it is 0 when the stage mask has the compute stage (bit 5); else, when it has the
  fragment stage (bit 4), it is 1 for a uniform buffer or a storage buffer and 0 for
  every other descriptor type; else it is 2.
\<close>

theorem computeSetIndex_placement:
  "computeSetIndex b =
     (if bit (stages b) 5 then 0
      else if bit (stages b) 4 then
        (if descriptorType b = VK_DESCRIPTOR_TYPE_UNIFORM_BUFFER
          \<or> descriptorType b = VK_DESCRIPTOR_TYPE_STORAGE_BUFFER then 1 else 0)
      else 2)"
  by (simp add: computeSetIndex_def and_compute_bit and_fragment_bit
      CsAll_def FsBuffers_def FsViews_def VsAll_def)

theorem computeSetIndex_placement_witness:
  "computeSetIndex \<lparr>descriptorType = VK_DESCRIPTOR_TYPE_STORAGE_BUFFER, resourceBinding = 3,
      viewType = VK_IMAGE_VIEW_TYPE_MAX_ENUM, stages = 0x10, access = 0\<rparr> = 1
   \<and> computeSetIndex \<lparr>descriptorType = VK_DESCRIPTOR_TYPE_STORAGE_BUFFER, resourceBinding = 3,
      viewType = VK_IMAGE_VIEW_TYPE_MAX_ENUM, stages = 0x30, access = 0\<rparr> = 0
   \<and> computeSetIndex \<lparr>descriptorType = VK_DESCRIPTOR_TYPE_SAMPLED_IMAGE, resourceBinding = 3,
      viewType = VK_IMAGE_VIEW_TYPE_2D, stages = 0x11, access = 0\<rparr> = 0
   \<and> computeSetIndex \<lparr>descriptorType = VK_DESCRIPTOR_TYPE_UNIFORM_BUFFER, resourceBinding = 3,
      viewType = VK_IMAGE_VIEW_TYPE_MAX_ENUM, stages = 0x09, access = 0\<rparr> = 2"
  using
    computeSetIndex_placement [of "\<lparr>descriptorType = VK_DESCRIPTOR_TYPE_STORAGE_BUFFER, resourceBinding = 3,
      viewType = VK_IMAGE_VIEW_TYPE_MAX_ENUM, stages = 0x10, access = 0\<rparr>"]
    computeSetIndex_placement [of "\<lparr>descriptorType = VK_DESCRIPTOR_TYPE_STORAGE_BUFFER, resourceBinding = 3,
      viewType = VK_IMAGE_VIEW_TYPE_MAX_ENUM, stages = 0x30, access = 0\<rparr>"]
    computeSetIndex_placement [of "\<lparr>descriptorType = VK_DESCRIPTOR_TYPE_SAMPLED_IMAGE, resourceBinding = 3,
      viewType = VK_IMAGE_VIEW_TYPE_2D, stages = 0x11, access = 0\<rparr>"]
    computeSetIndex_placement [of "\<lparr>descriptorType = VK_DESCRIPTOR_TYPE_UNIFORM_BUFFER, resourceBinding = 3,
      viewType = VK_IMAGE_VIEW_TYPE_MAX_ENUM, stages = 0x09, access = 0\<rparr>"]
  by simp

section \<open>Merging two bindings\<close>

lemma canMerge_iff:
  "canMerge a b \<longleftrightarrow>
     (bit (stages a) 4 \<longleftrightarrow> bit (stages b) 4)
   \<and> descriptorType a = descriptorType b
   \<and> resourceBinding a = resourceBinding b
   \<and> viewType a = viewType b"
  by (simp add: canMerge_def and_fragment_bit_eq)

text \<open>
  Claim C3. \<open>canMerge\<close> holds exactly when the two bindings agree on the presence of
  the fragment stage (bit 4 of the stage mask), on the descriptor type, on the resource
  binding slot and on the view type. \<open>merge\<close> gives the first binding with the stage
  mask and the access mask replaced by the bitwise disjunction of the two masks; the
  descriptor type, the slot and the view type stay.
\<close>

theorem canMerge_merge_spec:
  "(canMerge a b \<longleftrightarrow>
       (bit (stages a) 4 \<longleftrightarrow> bit (stages b) 4)
     \<and> descriptorType a = descriptorType b
     \<and> resourceBinding a = resourceBinding b
     \<and> viewType a = viewType b)
   \<and> stages (merge a b) = stages a OR stages b
   \<and> access (merge a b) = access a OR access b
   \<and> descriptorType (merge a b) = descriptorType a
   \<and> resourceBinding (merge a b) = resourceBinding a
   \<and> viewType (merge a b) = viewType a"
  by (simp add: canMerge_iff merge_def)

theorem canMerge_merge_spec_witness:
  "canMerge
     \<lparr>descriptorType = VK_DESCRIPTOR_TYPE_UNIFORM_BUFFER, resourceBinding = 7,
      viewType = VK_IMAGE_VIEW_TYPE_MAX_ENUM, stages = 0x01, access = 0x20\<rparr>
     \<lparr>descriptorType = VK_DESCRIPTOR_TYPE_UNIFORM_BUFFER, resourceBinding = 7,
      viewType = VK_IMAGE_VIEW_TYPE_MAX_ENUM, stages = 0x08, access = 0x40\<rparr>
   \<and> stages (merge
     \<lparr>descriptorType = VK_DESCRIPTOR_TYPE_UNIFORM_BUFFER, resourceBinding = 7,
      viewType = VK_IMAGE_VIEW_TYPE_MAX_ENUM, stages = 0x01, access = 0x20\<rparr>
     \<lparr>descriptorType = VK_DESCRIPTOR_TYPE_UNIFORM_BUFFER, resourceBinding = 7,
      viewType = VK_IMAGE_VIEW_TYPE_MAX_ENUM, stages = 0x08, access = 0x40\<rparr>) = 0x09
   \<and> access (merge
     \<lparr>descriptorType = VK_DESCRIPTOR_TYPE_UNIFORM_BUFFER, resourceBinding = 7,
      viewType = VK_IMAGE_VIEW_TYPE_MAX_ENUM, stages = 0x01, access = 0x20\<rparr>
     \<lparr>descriptorType = VK_DESCRIPTOR_TYPE_UNIFORM_BUFFER, resourceBinding = 7,
      viewType = VK_IMAGE_VIEW_TYPE_MAX_ENUM, stages = 0x08, access = 0x40\<rparr>) = 0x60"
  using canMerge_merge_spec [of
     "\<lparr>descriptorType = VK_DESCRIPTOR_TYPE_UNIFORM_BUFFER, resourceBinding = 7,
      viewType = VK_IMAGE_VIEW_TYPE_MAX_ENUM, stages = 0x01, access = 0x20\<rparr>"
     "\<lparr>descriptorType = VK_DESCRIPTOR_TYPE_UNIFORM_BUFFER, resourceBinding = 7,
      viewType = VK_IMAGE_VIEW_TYPE_MAX_ENUM, stages = 0x08, access = 0x40\<rparr>"]
  by simp


section \<open>The push constant range\<close>

lemma addPushConstantRange_from_origin:
  assumes "offset (m_pushConst l) = 0"
  shows "m_pushConst (addPushConstantRange l r) =
           \<lparr>stageFlags = stageFlags (m_pushConst l) OR stageFlags r,
            offset = 0,
            size' = max (size' (m_pushConst l)) (offset r + size' r)\<rparr>"
  using assms by (simp add: addPushConstantRange_def Let_def)

lemma fold_addPushConstantRange:
  "offset (m_pushConst l) = 0 \<Longrightarrow>
   m_pushConst (fold (\<lambda>r acc. addPushConstantRange acc r) rs l) =
     \<lparr>stageFlags = fold (\<lambda>r f. f OR stageFlags r) rs (stageFlags (m_pushConst l)),
      offset = 0,
      size' = fold (\<lambda>r e. max e (offset r + size' r)) rs (size' (m_pushConst l))\<rparr>"
proof (induction rs arbitrary: l)
  case Nil
  then show ?case by simp
next
  case (Cons r rs)
  have step: "m_pushConst (addPushConstantRange l r) =
           \<lparr>stageFlags = stageFlags (m_pushConst l) OR stageFlags r,
            offset = 0,
            size' = max (size' (m_pushConst l)) (offset r + size' r)\<rparr>"
    by (rule addPushConstantRange_from_origin [OF Cons.prems])
  then have "offset (m_pushConst (addPushConstantRange l r)) = 0" by simp
  from Cons.IH [OF this] show ?case by (simp add: step)
qed

lemma m_pushConst_addPushConstantRanges:
  "m_pushConst (addPushConstantRanges rs) =
     \<lparr>stageFlags = ranges_stageFlags rs, offset = 0, size' = ranges_end rs\<rparr>"
  using fold_addPushConstantRange [of DxvkBindingLayout_new rs]
  by (simp add: addPushConstantRanges_def DxvkBindingLayout_new_def ranges_stageFlags_def ranges_end_def)

text \<open>
  Claim C4 as stated takes the offset of the stored range to be the least offset of the
  ranges added. The constructor's range \<^verbatim>\<open>{ 0, 0, 0 }\<close> takes part in the minimum: after
  the single range with offset 16 and size 16, the stored range has offset 0 and size 32.
\<close>

theorem addPushConstantRange_offset_counterexample:
  "offset (m_pushConst (addPushConstantRanges [\<lparr>stageFlags = 1, offset = 16, size' = 16\<rparr>]))
     \<noteq> least_offset [\<lparr>stageFlags = 1, offset = 16, size' = 16\<rparr>]"
  by (simp add: addPushConstantRanges_def addPushConstantRange_def DxvkBindingLayout_new_def
      least_offset_def)

text \<open>
  Claim C4, amended. For every sequence of ranges added to a freshly constructed layout,
  the stored range is the union of the ranges added and the constructor's empty range at
  offset 0: its offset is 0, its size, which is its end, is the largest end
  \<^verbatim>\<open>offset + size\<close> of the ranges added (in \<^verbatim>\<open>uint32_t\<close> arithmetic; 0 when there is
  none), and its stage mask is the disjunction of their stage masks. Adding one more
  range never moves the offset up nor the end down, and never clears a stage bit.
\<close>

theorem addPushConstantRange_union_from_origin:
  "m_pushConst (addPushConstantRanges rs) =
     \<lparr>stageFlags = ranges_stageFlags rs, offset = 0, size' = ranges_end rs\<rparr>
   \<and> offset (m_pushConst (addPushConstantRange (addPushConstantRanges rs) r))
       \<le> offset (m_pushConst (addPushConstantRanges rs))
   \<and> offset (m_pushConst (addPushConstantRanges rs)) + size' (m_pushConst (addPushConstantRanges rs))
       \<le> offset (m_pushConst (addPushConstantRange (addPushConstantRanges rs) r))
         + size' (m_pushConst (addPushConstantRange (addPushConstantRanges rs) r))
   \<and> stageFlags (m_pushConst (addPushConstantRange (addPushConstantRanges rs) r))
         AND stageFlags (m_pushConst (addPushConstantRanges rs))
       = stageFlags (m_pushConst (addPushConstantRanges rs))"
proof -
  have a: "m_pushConst (addPushConstantRanges rs) =
     \<lparr>stageFlags = ranges_stageFlags rs, offset = 0, size' = ranges_end rs\<rparr>"
    by (rule m_pushConst_addPushConstantRanges)
  then have "offset (m_pushConst (addPushConstantRanges rs)) = 0" by simp
  from addPushConstantRange_from_origin [OF this, of r]
  have b: "m_pushConst (addPushConstantRange (addPushConstantRanges rs) r) =
     \<lparr>stageFlags = ranges_stageFlags rs OR stageFlags r, offset = 0,
      size' = max (ranges_end rs) (offset r + size' r)\<rparr>"
    by (simp add: a)
  have c: "(ranges_stageFlags rs OR stageFlags r) AND ranges_stageFlags rs = ranges_stageFlags rs"
    by (rule bit_word_eqI) (auto simp: bit_and_iff bit_or_iff)
  show ?thesis by (simp add: a b c)
qed

theorem addPushConstantRange_union_from_origin_witness:
  "m_pushConst (addPushConstantRanges
      [\<lparr>stageFlags = 0x01, offset = 16, size' = 16\<rparr>, \<lparr>stageFlags = 0x10, offset = 0, size' = 16\<rparr>])
     = \<lparr>stageFlags = 0x11, offset = 0, size' = 32\<rparr>
   \<and> m_pushConst (addPushConstantRanges [\<lparr>stageFlags = 0x01, offset = 16, size' = 16\<rparr>])
     = \<lparr>stageFlags = 0x01, offset = 0, size' = 32\<rparr>"
  using
    addPushConstantRange_union_from_origin [of
      "[\<lparr>stageFlags = 0x01, offset = 16, size' = 16\<rparr>, \<lparr>stageFlags = 0x10, offset = 0, size' = 16\<rparr>]"]
    addPushConstantRange_union_from_origin [of "[\<lparr>stageFlags = 0x01, offset = 16, size' = 16\<rparr>]"]
  by (simp add: ranges_stageFlags_def ranges_end_def)


section \<open>No two mergeable entries in one set\<close>

lemma canMerge_merge_key: "canMerge a b \<longleftrightarrow> merge_key a = merge_key b"
  by (auto simp: canMerge_iff merge_key_def)

lemma merge_key_merge: "canMerge a b \<Longrightarrow> merge_key (merge a b) = merge_key a"
  by (auto simp: canMerge_iff merge_key_def merge_def bit_or_iff)

lemma mergeInto_None: "mergeInto es b = None \<Longrightarrow> merge_key b \<notin> set (map merge_key es)"
  by (induction es) (auto simp: canMerge_merge_key split: if_splits)

lemma mergeInto_Some: "mergeInto es b = Some es' \<Longrightarrow> map merge_key es' = map merge_key es"
  by (induction es arbitrary: es') (auto simp: merge_key_merge split: if_splits)

lemma at_put:
  "i < SetCount \<Longrightarrow> j < SetCount \<Longrightarrow> at (put a i v) j = (if i = j then v else at a j)"
  by (cases a) (auto simp: SetCount_def)

lemma computeSetIndex_less: "computeSetIndex b < SetCount"
  by (simp add: computeSetIndex_def CsAll_def FsBuffers_def FsViews_def VsAll_def SetCount_def)

lemma sets_distinct_put:
  assumes "sets_distinct l" and "k < SetCount" and "distinct (map merge_key es)"
  shows "sets_distinct (l\<lparr>m_bindings := put (m_bindings l) k es\<rparr>)"
  unfolding sets_distinct_def
proof (intro allI impI)
  fix s assume s: "s < SetCount"
  show "distinct (map merge_key (at (m_bindings (l\<lparr>m_bindings := put (m_bindings l) k es\<rparr>)) s))"
  proof (cases "k = s")
    case True
    then show ?thesis using assms(2,3) s by (simp add: at_put)
  next
    case False
    then show ?thesis using assms(1,2) s by (simp add: at_put sets_distinct_def)
  qed
qed

lemma sets_distinct_addBinding:
  assumes a: "sets_distinct l"
  shows "sets_distinct (addBinding l b)"
proof -
  let ?k = "computeSetIndex b"
  let ?es = "at (m_bindings l) ?k"
  have k: "?k < SetCount" by (rule computeSetIndex_less)
  have d: "distinct (map merge_key ?es)" using a k by (simp add: sets_distinct_def)
  show ?thesis
  proof (cases "mergeInto ?es b")
    case None
    then have "merge_key b \<notin> set (map merge_key ?es)" by (rule mergeInto_None)
    with d have "distinct (map merge_key (?es @ [b]))" by simp
    from sets_distinct_put [OF a k this] None show ?thesis
      by (simp add: addBinding_def Let_def)
  next
    case (Some es')
    then have "map merge_key es' = map merge_key ?es" by (rule mergeInto_Some)
    with d have "distinct (map merge_key es')" by simp
    from sets_distinct_put [OF a k this] Some show ?thesis
      by (simp add: addBinding_def Let_def)
  qed
qed

lemma sets_distinct_fold_addBinding:
  "sets_distinct l \<Longrightarrow> sets_distinct (fold (\<lambda>binding acc. addBinding acc binding) bs l)"
  by (induction bs arbitrary: l) (auto simp: sets_distinct_addBinding)

lemma sets_distinct_addPushConstantRange:
  "sets_distinct (addPushConstantRange l r) = sets_distinct l"
  by (simp add: sets_distinct_def addPushConstantRange_def Let_def)

lemma sets_distinct_fold_sets:
  "sets_distinct l \<Longrightarrow>
   sets_distinct
     (fold (\<lambda>i acc. fold (\<lambda>binding acc'. addBinding acc' binding) (at (m_bindings other) i) acc)
        idx l)"
  by (induction idx arbitrary: l) (auto simp: sets_distinct_fold_addBinding)

lemma sets_distinct_merge:
  "sets_distinct l \<Longrightarrow> sets_distinct (DxvkBindingLayout_merge l other)"
  by (simp add: DxvkBindingLayout_merge_def sets_distinct_addPushConstantRange
      sets_distinct_fold_sets)

lemma sets_distinct_run_op: "sets_distinct l \<Longrightarrow> sets_distinct (run_op l op)"
  by (cases op)
    (simp_all add: sets_distinct_addBinding sets_distinct_addPushConstantRange sets_distinct_merge)

lemma sets_distinct_fold_run_op:
  "sets_distinct l \<Longrightarrow> sets_distinct (fold (\<lambda>op l. run_op l op) ops l)"
  by (induction ops arbitrary: l) (auto simp: sets_distinct_run_op)

lemma sets_distinct_new: "sets_distinct DxvkBindingLayout_new"
  by (simp add: sets_distinct_def DxvkBindingLayout_new_def SetCount_def)

lemma sets_distinct_run_ops: "sets_distinct (run_ops ops)"
  unfolding run_ops_def by (rule sets_distinct_fold_run_op [OF sets_distinct_new])

text \<open>
  Claim C8. In a layout built from the constructor by any sequence of \<open>addBinding\<close>,
  \<open>addPushConstantRange\<close> and \<open>merge\<close>, two different entries of one descriptor set that
  have the same descriptor type, resource binding slot and view type differ in the
  presence of the fragment stage (bit 4) in their stage masks.
\<close>

theorem layout_entries_unmergeable:
  "s < SetCount \<Longrightarrow>
   i < length (at (m_bindings (run_ops ops)) s) \<Longrightarrow>
   j < length (at (m_bindings (run_ops ops)) s) \<Longrightarrow>
   i \<noteq> j \<Longrightarrow>
   descriptorType (at (m_bindings (run_ops ops)) s ! i)
     = descriptorType (at (m_bindings (run_ops ops)) s ! j) \<Longrightarrow>
   resourceBinding (at (m_bindings (run_ops ops)) s ! i)
     = resourceBinding (at (m_bindings (run_ops ops)) s ! j) \<Longrightarrow>
   viewType (at (m_bindings (run_ops ops)) s ! i)
     = viewType (at (m_bindings (run_ops ops)) s ! j) \<Longrightarrow>
   bit (stages (at (m_bindings (run_ops ops)) s ! i)) 4
     \<noteq> bit (stages (at (m_bindings (run_ops ops)) s ! j)) 4"
proof -
  let ?es = "at (m_bindings (run_ops ops)) s"
  assume s: "s < SetCount" and i: "i < length ?es" and j: "j < length ?es" and ij: "i \<noteq> j"
    and ty: "descriptorType (?es ! i) = descriptorType (?es ! j)"
    and slot: "resourceBinding (?es ! i) = resourceBinding (?es ! j)"
    and view: "viewType (?es ! i) = viewType (?es ! j)"
  have "distinct (map merge_key ?es)"
    using sets_distinct_run_ops [of ops] s by (simp add: sets_distinct_def)
  then have "map merge_key ?es ! i \<noteq> map merge_key ?es ! j"
    using i j ij by (simp add: nth_eq_iff_index_eq del: nth_map)
  then have "merge_key (?es ! i) \<noteq> merge_key (?es ! j)"
    using i j by simp
  then show ?thesis using ty slot view by (simp add: merge_key_def)
qed

lemmas layout_eval =
  run_ops_def addBinding_def DxvkBindingLayout_merge_def Let_def computeSetIndex_def
  canMerge_def merge_def addPushConstantRange_def DxvkBindingLayout_new_def SetCount_def
  VK_SHADER_STAGE_COMPUTE_BIT_def VK_SHADER_STAGE_FRAGMENT_BIT_def
  CsAll_def FsViews_def FsBuffers_def VsAll_def

theorem layout_entries_unmergeable_witness:
  "at (m_bindings (run_ops
      [AddBinding \<lparr>descriptorType = VK_DESCRIPTOR_TYPE_SAMPLED_IMAGE, resourceBinding = 2,
         viewType = VK_IMAGE_VIEW_TYPE_2D, stages = 0x20, access = 0x20\<rparr>,
       AddBinding \<lparr>descriptorType = VK_DESCRIPTOR_TYPE_SAMPLED_IMAGE, resourceBinding = 2,
         viewType = VK_IMAGE_VIEW_TYPE_2D, stages = 0x10, access = 0x20\<rparr>,
       AddBinding \<lparr>descriptorType = VK_DESCRIPTOR_TYPE_SAMPLED_IMAGE, resourceBinding = 2,
         viewType = VK_IMAGE_VIEW_TYPE_2D, stages = 0x30, access = 0x40\<rparr>])) 0
     = [\<lparr>descriptorType = VK_DESCRIPTOR_TYPE_SAMPLED_IMAGE, resourceBinding = 2,
         viewType = VK_IMAGE_VIEW_TYPE_2D, stages = 0x20, access = 0x20\<rparr>,
        \<lparr>descriptorType = VK_DESCRIPTOR_TYPE_SAMPLED_IMAGE, resourceBinding = 2,
         viewType = VK_IMAGE_VIEW_TYPE_2D, stages = 0x30, access = 0x60\<rparr>]
   \<and> bit (stages (at (m_bindings (run_ops
      [AddBinding \<lparr>descriptorType = VK_DESCRIPTOR_TYPE_SAMPLED_IMAGE, resourceBinding = 2,
         viewType = VK_IMAGE_VIEW_TYPE_2D, stages = 0x20, access = 0x20\<rparr>,
       AddBinding \<lparr>descriptorType = VK_DESCRIPTOR_TYPE_SAMPLED_IMAGE, resourceBinding = 2,
         viewType = VK_IMAGE_VIEW_TYPE_2D, stages = 0x10, access = 0x20\<rparr>,
       AddBinding \<lparr>descriptorType = VK_DESCRIPTOR_TYPE_SAMPLED_IMAGE, resourceBinding = 2,
         viewType = VK_IMAGE_VIEW_TYPE_2D, stages = 0x30, access = 0x40\<rparr>])) 0 ! 0)) 4
     \<noteq> bit (stages (at (m_bindings (run_ops
      [AddBinding \<lparr>descriptorType = VK_DESCRIPTOR_TYPE_SAMPLED_IMAGE, resourceBinding = 2,
         viewType = VK_IMAGE_VIEW_TYPE_2D, stages = 0x20, access = 0x20\<rparr>,
       AddBinding \<lparr>descriptorType = VK_DESCRIPTOR_TYPE_SAMPLED_IMAGE, resourceBinding = 2,
         viewType = VK_IMAGE_VIEW_TYPE_2D, stages = 0x10, access = 0x20\<rparr>,
       AddBinding \<lparr>descriptorType = VK_DESCRIPTOR_TYPE_SAMPLED_IMAGE, resourceBinding = 2,
         viewType = VK_IMAGE_VIEW_TYPE_2D, stages = 0x30, access = 0x40\<rparr>])) 0 ! 1)) 4"
proof -
  let ?ops = "[AddBinding \<lparr>descriptorType = VK_DESCRIPTOR_TYPE_SAMPLED_IMAGE, resourceBinding = 2,
         viewType = VK_IMAGE_VIEW_TYPE_2D, stages = 0x20, access = 0x20\<rparr>,
       AddBinding \<lparr>descriptorType = VK_DESCRIPTOR_TYPE_SAMPLED_IMAGE, resourceBinding = 2,
         viewType = VK_IMAGE_VIEW_TYPE_2D, stages = 0x10, access = 0x20\<rparr>,
       AddBinding \<lparr>descriptorType = VK_DESCRIPTOR_TYPE_SAMPLED_IMAGE, resourceBinding = 2,
         viewType = VK_IMAGE_VIEW_TYPE_2D, stages = 0x30, access = 0x40\<rparr>]"
  have e: "at (m_bindings (run_ops ?ops)) 0
     = [\<lparr>descriptorType = VK_DESCRIPTOR_TYPE_SAMPLED_IMAGE, resourceBinding = 2,
         viewType = VK_IMAGE_VIEW_TYPE_2D, stages = 0x20, access = 0x20\<rparr>,
        \<lparr>descriptorType = VK_DESCRIPTOR_TYPE_SAMPLED_IMAGE, resourceBinding = 2,
         viewType = VK_IMAGE_VIEW_TYPE_2D, stages = 0x30, access = 0x60\<rparr>]"
    by (simp add: layout_eval)
  have "bit (stages (at (m_bindings (run_ops ?ops)) 0 ! 0)) 4
     \<noteq> bit (stages (at (m_bindings (run_ops ?ops)) 0 ! 1)) 4"
    by (rule layout_entries_unmergeable [of 0 0 ?ops 1]) (simp_all add: e SetCount_def)
  with e show ?thesis by simp
qed


section \<open>Dynamic descriptors in the single-set mapping\<close>

lemma fold_count:
  "fold (\<lambda>slot count. count + (if ds_type slot = ty then 1 else 0)) slots (c::32 word)
     = c + of_nat (length (filter (\<lambda>d. ds_type d = ty) slots))"
  by (induction slots arbitrary: c) simp_all

lemma countDescriptors_of_nat:
  "countDescriptors m ty = of_nat (length (filter (\<lambda>d. ds_type d = ty) (m_descriptorSlots m)))"
  by (simp add: countDescriptors_def fold_count)

lemma unat_countDescriptors:
  assumes "length (m_descriptorSlots m) < 2 ^ 32"
  shows "unat (countDescriptors m ty) = length (filter (\<lambda>d. ds_type d = ty) (m_descriptorSlots m))"
proof -
  have "length (filter (\<lambda>d. ds_type d = ty) (m_descriptorSlots m)) < 2 ^ LENGTH(32)"
    using le_less_trans [OF length_filter_le assms] by simp
  then show ?thesis
    unfolding countDescriptors_of_nat by (rule of_nat_inverse [OF refl])
qed

text \<open>
  Claim C5. Let \<open>n\<close> be the number of uniform buffer bindings of a slot mapping (whose
  bindings are fewer than \<open>2^32\<close>, the range of the counter). After
  \<open>makeDescriptorsDynamic\<close> with the limits \<open>uniformBuffers\<close> and \<open>storageBuffers\<close>, the
  mapping has the same bindings in the same order and the same push constant range,
  where a binding has become a dynamic uniform buffer if and only if it was a uniform
  buffer and \<open>n\<close> does not exceed \<open>uniformBuffers\<close>; every other binding, a storage buffer
  in particular, is what it was, whatever \<open>storageBuffers\<close> is.
\<close>

theorem makeDescriptorsDynamic_spec:
  "length (m_descriptorSlots m) < 2 ^ 32 \<Longrightarrow>
   m_pushConstRange (makeDescriptorsDynamic m uniformBuffers storageBuffers) = m_pushConstRange m
   \<and> length (m_descriptorSlots (makeDescriptorsDynamic m uniformBuffers storageBuffers))
       = length (m_descriptorSlots m)
   \<and> (\<forall>i<length (m_descriptorSlots m).
        m_descriptorSlots (makeDescriptorsDynamic m uniformBuffers storageBuffers) ! i =
          (if ds_type (m_descriptorSlots m ! i) = VK_DESCRIPTOR_TYPE_UNIFORM_BUFFER
            \<and> length (filter (\<lambda>d. ds_type d = VK_DESCRIPTOR_TYPE_UNIFORM_BUFFER) (m_descriptorSlots m))
                \<le> unat uniformBuffers
           then (m_descriptorSlots m ! i)\<lparr>ds_type := VK_DESCRIPTOR_TYPE_UNIFORM_BUFFER_DYNAMIC\<rparr>
           else m_descriptorSlots m ! i))
   \<and> (\<forall>i<length (m_descriptorSlots m).
        ds_type (m_descriptorSlots m ! i) = VK_DESCRIPTOR_TYPE_STORAGE_BUFFER \<longrightarrow>
        m_descriptorSlots (makeDescriptorsDynamic m uniformBuffers storageBuffers) ! i
          = m_descriptorSlots m ! i)"
proof -
  assume len: "length (m_descriptorSlots m) < 2 ^ 32"
  let ?n = "length (filter (\<lambda>d. ds_type d = VK_DESCRIPTOR_TYPE_UNIFORM_BUFFER) (m_descriptorSlots m))"
  have cond: "countDescriptors m VK_DESCRIPTOR_TYPE_UNIFORM_BUFFER \<le> uniformBuffers
                \<longleftrightarrow> ?n \<le> unat uniformBuffers"
    by (simp add: word_le_nat_alt unat_countDescriptors [OF len])
  show ?thesis
    by (simp add: makeDescriptorsDynamic_def replaceDescriptors_def cond)
qed

theorem makeDescriptorsDynamic_spec_witness:
  "(let ubo = (\<lambda>n. \<lparr>ds_slot = n, ds_type = VK_DESCRIPTOR_TYPE_UNIFORM_BUFFER,
                       ds_view = VK_IMAGE_VIEW_TYPE_MAX_ENUM, ds_stages = 0x01, ds_access = 0x20\<rparr>);
        ssbo = (\<lambda>n. \<lparr>ds_slot = n, ds_type = VK_DESCRIPTOR_TYPE_STORAGE_BUFFER,
                       ds_view = VK_IMAGE_VIEW_TYPE_MAX_ENUM, ds_stages = 0x01, ds_access = 0x60\<rparr>);
        four = \<lparr>m_descriptorSlots = [ubo 0, ubo 1, ssbo 2, ubo 3, ubo 4],
                m_pushConstRange = \<lparr>stageFlags = 0, offset = 0, size' = 0\<rparr>\<rparr>;
        five = \<lparr>m_descriptorSlots = [ubo 0, ubo 1, ssbo 2, ubo 3, ubo 4, ubo 5],
                m_pushConstRange = \<lparr>stageFlags = 0, offset = 0, size' = 0\<rparr>\<rparr>
    in length (m_descriptorSlots four) < 2 ^ 32
     \<and> length (m_descriptorSlots five) < 2 ^ 32
     \<and> map ds_type (m_descriptorSlots (makeDescriptorsDynamic four 4 0))
         = [VK_DESCRIPTOR_TYPE_UNIFORM_BUFFER_DYNAMIC, VK_DESCRIPTOR_TYPE_UNIFORM_BUFFER_DYNAMIC,
            VK_DESCRIPTOR_TYPE_STORAGE_BUFFER,
            VK_DESCRIPTOR_TYPE_UNIFORM_BUFFER_DYNAMIC, VK_DESCRIPTOR_TYPE_UNIFORM_BUFFER_DYNAMIC]
     \<and> m_descriptorSlots (makeDescriptorsDynamic five 4 8) = m_descriptorSlots five)"
proof -
  let ?ubo = "\<lambda>n. \<lparr>ds_slot = n, ds_type = VK_DESCRIPTOR_TYPE_UNIFORM_BUFFER,
                       ds_view = VK_IMAGE_VIEW_TYPE_MAX_ENUM, ds_stages = 0x01, ds_access = 0x20\<rparr>"
  let ?ssbo = "\<lambda>n. \<lparr>ds_slot = n, ds_type = VK_DESCRIPTOR_TYPE_STORAGE_BUFFER,
                       ds_view = VK_IMAGE_VIEW_TYPE_MAX_ENUM, ds_stages = 0x01, ds_access = 0x60\<rparr>"
  let ?four = "\<lparr>m_descriptorSlots = [?ubo 0, ?ubo 1, ?ssbo 2, ?ubo 3, ?ubo 4],
                m_pushConstRange = \<lparr>stageFlags = 0, offset = 0, size' = 0\<rparr>\<rparr>"
  let ?five = "\<lparr>m_descriptorSlots = [?ubo 0, ?ubo 1, ?ssbo 2, ?ubo 3, ?ubo 4, ?ubo 5],
                m_pushConstRange = \<lparr>stageFlags = 0, offset = 0, size' = 0\<rparr>\<rparr>"
  have len4: "length (m_descriptorSlots ?four) < 2 ^ 32" by simp
  have len5: "length (m_descriptorSlots ?five) < 2 ^ 32" by simp
  have a: "map ds_type (m_descriptorSlots (makeDescriptorsDynamic ?four 4 0))
     = [VK_DESCRIPTOR_TYPE_UNIFORM_BUFFER_DYNAMIC, VK_DESCRIPTOR_TYPE_UNIFORM_BUFFER_DYNAMIC,
        VK_DESCRIPTOR_TYPE_STORAGE_BUFFER,
        VK_DESCRIPTOR_TYPE_UNIFORM_BUFFER_DYNAMIC, VK_DESCRIPTOR_TYPE_UNIFORM_BUFFER_DYNAMIC]"
    using makeDescriptorsDynamic_spec [OF len4, of 4 0]
    by (simp add: makeDescriptorsDynamic_def replaceDescriptors_def countDescriptors_def)
  have b: "m_descriptorSlots (makeDescriptorsDynamic ?five 4 8) = m_descriptorSlots ?five"
    using makeDescriptorsDynamic_spec [OF len5, of 4 8]
    by (simp add: makeDescriptorsDynamic_def replaceDescriptors_def countDescriptors_def)
  from len4 len5 a b show ?thesis
    unfolding Let_def by blast
qed


section \<open>Missing mandatory shader\<close>

text \<open>
  Claim C7. \<open>createComputePipeline\<close> returns null for a shader set without compute
  shader, and \<open>createGraphicsPipeline\<close> returns null for a shader set without vertex
  shader; in both cases the manager, with its three caches, is what it was.
\<close>

theorem create_without_mandatory_shader:
  "(cs cshaders = None \<longrightarrow>
      createComputePipeline MaxNumActiveBindings getBindings this cshaders = (Inr None, this))
   \<and> (vs gshaders = None \<longrightarrow>
      createGraphicsPipeline MaxNumActiveBindings getBindings this gshaders = (Inr None, this))"
  by (simp add: createComputePipeline_def createGraphicsPipeline_def)

theorem create_without_mandatory_shader_witness:
  "cs \<lparr>cs = None\<rparr> = None
   \<and> createComputePipeline 4 (\<lambda>sh. DxvkBindingLayout_new) (DxvkPipelineManager_new (newDevice []))
        \<lparr>cs = None\<rparr>
       = (Inr None, DxvkPipelineManager_new (newDevice []))
   \<and> vs \<lparr>vs = None, tcs = None, tes = None, gs = None, fs = Some 5\<rparr> = None
   \<and> createGraphicsPipeline 4 (\<lambda>sh. DxvkBindingLayout_new) (DxvkPipelineManager_new (newDevice []))
        \<lparr>vs = None, tcs = None, tes = None, gs = None, fs = Some 5\<rparr>
       = (Inr None, DxvkPipelineManager_new (newDevice []))"
  using create_without_mandatory_shader [where cshaders = "\<lparr>cs = None\<rparr>"
      and getBindings = "\<lambda>sh. DxvkBindingLayout_new"
      and this = "DxvkPipelineManager_new (newDevice [])"
      and MaxNumActiveBindings = 4
      and gshaders = "\<lparr>vs = None, tcs = None, tes = None, gs = None, fs = Some 5\<rparr>"]
  by simp

section \<open>Native objects left behind by a failed construction\<close>

lemmas device_eval =
  vkCreate_def vkDestroy_def vkCreateDescriptorSetLayout_def vkCreateDescriptorUpdateTemplate_def
  vkCreatePipelineLayout_def vkDestroyDescriptorSetLayout_def vkDestroyDescriptorUpdateTemplate_def
  vkDestroyPipelineLayout_def newDevice_def VK_NULL_HANDLE_def

lemmas objects_eval =
  DxvkBindingLayoutObjects_new_def createSet_def bindingLoop_def bindingStep_def umap_insert_def
  getBindingCount_def getBinding_def

text \<open>
  Claim C1, on the code. The layout is the one with a single uniform buffer of the vertex
  stage, and the local arrays have room for at least one binding. The device creates the
  three descriptor set layouts and the update template of set 2, and fails to create the
  pipeline layout. The constructor of \<open>DxvkBindingLayoutObjects\<close> throws, and the four
  native objects it has created are still there.
\<close>

theorem DxvkBindingLayoutObjects_new_leaks:
  "DxvkBindingLayoutObjects_new (Suc n)
     (newDevice [VK_SUCCESS, VK_SUCCESS, VK_SUCCESS, VK_SUCCESS, VK_ERROR_OUT_OF_DEVICE_MEMORY])
     (addBinding DxvkBindingLayout_new
        \<lparr>descriptorType = VK_DESCRIPTOR_TYPE_UNIFORM_BUFFER, resourceBinding = 0,
         viewType = VK_IMAGE_VIEW_TYPE_MAX_ENUM, stages = 0x01, access = 0x20\<rparr>)
   = (Inl (Thrown (DxvkError ''DxvkBindingLayoutObjects: Failed to create pipeline layout'')),
      \<lparr>liveObjects = [DescriptorUpdateTemplate 4, DescriptorSetLayout 3,
                      DescriptorSetLayout 2, DescriptorSetLayout 1],
       handleCount = 4,
       driverResults = []\<rparr>)"
  by (simp add: objects_eval device_eval layout_eval upt_rec)


section \<open>The slot table of the layout objects\<close>

lemma first_index_None: "first_index x xs = None \<longleftrightarrow> x \<notin> set xs"
  by (induction xs) auto

lemma first_index_Some:
  "first_index x xs = Some j \<Longrightarrow> j < length xs \<and> xs ! j = x \<and> (\<forall>k<j. xs ! k \<noteq> x)"
proof (induction xs arbitrary: j)
  case Nil
  then show ?case by simp
next
  case (Cons y ys)
  show ?case
  proof (cases "y = x")
    case True
    with Cons.prems show ?thesis by simp
  next
    case False
    with Cons.prems obtain j' where j': "first_index x ys = Some j'" and j: "j = Suc j'"
      by auto
    from Cons.IH [OF j'] False j show ?thesis
      by (auto simp: nth_Cons split: nat.splits)
  qed
qed

lemma first_index_snoc:
  "first_index x (xs @ [y]) =
     (case first_index x xs of
        Some j \<Rightarrow> Some j
      | None \<Rightarrow> if y = x then Some (length xs) else None)"
  by (induction xs) (auto split: option.splits)

lemma slots_mapping_snoc:
  "slots_mapping i cid (xs @ [y]) =
     umap_insert (slots_mapping i cid xs) y
       \<lparr>set' = of_nat i, binding = of_nat (length xs), constId = cid + of_nat (length xs)\<rparr>"
  by (rule ext)
    (auto simp: slots_mapping_def umap_insert_def first_index_snoc split: option.splits)

lemma umap_insert_map_add:
  "umap_insert (m1 ++ m2) k v = umap_insert m1 k v ++ m2"
  by (rule ext) (auto simp: umap_insert_def map_add_def split: option.splits)

lemma bindingStep_Some:
  assumes "j < length (bindingInfos arrays)" and "j < length (templateInfos arrays)"
  shows "\<exists>arrays'. bindingStep layout i j (arrays, m, c) =
           Some (arrays',
                 umap_insert m (resourceBinding (at (m_bindings layout) i ! j))
                   \<lparr>set' = of_nat i, binding = of_nat j, constId = c\<rparr>,
                 c + 1)
         \<and> length (bindingInfos arrays') = length (bindingInfos arrays)
         \<and> length (templateInfos arrays') = length (templateInfos arrays)"
  using assms by (simp add: bindingStep_def Let_def getBinding_def)

lemma bindingStep_None:
  "length (bindingInfos arrays) \<le> j \<Longrightarrow> bindingStep layout i j (arrays, m, c) = None"
  by (simp add: bindingStep_def Let_def)

lemma fold_bind_None: "fold (\<lambda>j acc. Option.bind acc (f j)) js None = None"
  by (induction js) simp_all

lemma binding_fold:
  "k \<le> length (at (m_bindings layout) i) \<Longrightarrow>
   k \<le> length (bindingInfos arrays) \<Longrightarrow>
   k \<le> length (templateInfos arrays) \<Longrightarrow>
   \<exists>arrays'.
     fold (\<lambda>j acc. Option.bind acc (bindingStep layout i j)) [0..<k] (Some (arrays, m, c))
       = Some (arrays', slots_mapping i c (take k (set_slots layout i)) ++ m, c + of_nat k)
     \<and> length (bindingInfos arrays') = length (bindingInfos arrays)
     \<and> length (templateInfos arrays') = length (templateInfos arrays)"
proof (induction k)
  case 0
  show ?case by (simp add: slots_mapping_def)
next
  case (Suc k)
  let ?bs = "at (m_bindings layout) i"
  from Suc.prems have k: "k < length ?bs" "k < length (bindingInfos arrays)"
    "k < length (templateInfos arrays)" by simp_all
  from Suc.IH k obtain mid where
    mid: "fold (\<lambda>j acc. Option.bind acc (bindingStep layout i j)) [0..<k] (Some (arrays, m, c))
            = Some (mid, slots_mapping i c (take k (set_slots layout i)) ++ m, c + of_nat k)"
    and lb: "length (bindingInfos mid) = length (bindingInfos arrays)"
    and lt: "length (templateInfos mid) = length (templateInfos arrays)"
    by auto
  from k lb lt have "k < length (bindingInfos mid)" "k < length (templateInfos mid)" by simp_all
  from bindingStep_Some [OF this, of layout i
      "slots_mapping i c (take k (set_slots layout i)) ++ m" "c + of_nat k"]
  obtain arrays' where
    step: "bindingStep layout i k
             (mid, slots_mapping i c (take k (set_slots layout i)) ++ m, c + of_nat k)
           = Some (arrays',
                   umap_insert (slots_mapping i c (take k (set_slots layout i)) ++ m)
                     (resourceBinding (?bs ! k))
                     \<lparr>set' = of_nat i, binding = of_nat k, constId = c + of_nat k\<rparr>,
                   c + of_nat k + 1)"
    and lb': "length (bindingInfos arrays') = length (bindingInfos mid)"
    and lt': "length (templateInfos arrays') = length (templateInfos mid)"
    by auto
  have tk: "take (Suc k) (set_slots layout i)
              = take k (set_slots layout i) @ [resourceBinding (?bs ! k)]"
    using k(1) by (simp add: set_slots_def take_Suc_conv_app_nth)
  have lk: "min (length (set_slots layout i)) k = k"
    using k(1) by (simp add: set_slots_def)
  have "fold (\<lambda>j acc. Option.bind acc (bindingStep layout i j)) [0..<Suc k] (Some (arrays, m, c))
          = Some (arrays', slots_mapping i c (take (Suc k) (set_slots layout i)) ++ m,
                  c + of_nat (Suc k))"
    by (simp add: mid step tk slots_mapping_snoc lk umap_insert_map_add add.assoc)
  with lb lb' lt lt' show ?case by auto
qed

lemma bindingLoop_mapping:
  assumes "length (at (m_bindings layout) i) < 2 ^ 32"
    and "length (at (m_bindings layout) i) \<le> length (bindingInfos arrays)"
    and "length (at (m_bindings layout) i) \<le> length (templateInfos arrays)"
  shows "\<exists>arrays'.
           bindingLoop layout i (arrays, m, c) =
             Some (arrays', slots_mapping i c (set_slots layout i) ++ m,
                   c + of_nat (length (at (m_bindings layout) i)))
         \<and> length (bindingInfos arrays') = length (bindingInfos arrays)
         \<and> length (templateInfos arrays') = length (templateInfos arrays)"
proof -
  have n: "unat (getBindingCount layout i) = length (at (m_bindings layout) i)"
    unfolding getBindingCount_def
    using assms(1) by (intro of_nat_inverse [OF refl]) simp
  have t: "take (length (at (m_bindings layout) i)) (set_slots layout i) = set_slots layout i"
    by (simp add: set_slots_def)
  show ?thesis
    unfolding bindingLoop_def n
    using binding_fold [OF le_refl assms(2) assms(3), of m c]
    by (simp add: t)
qed

text \<open>A set with more entries than the arrays hold makes the loop write behind their end.\<close>

lemma bindingLoop_overflow:
  assumes "length (at (m_bindings layout) i) < 2 ^ 32"
    and "length (bindingInfos arrays) < length (at (m_bindings layout) i)"
    and "length (templateInfos arrays) = length (bindingInfos arrays)"
  shows "bindingLoop layout i (arrays, m, c) = None"
proof -
  let ?n = "length (at (m_bindings layout) i)"
  let ?M = "length (bindingInfos arrays)"
  have n: "unat (getBindingCount layout i) = ?n"
    unfolding getBindingCount_def
    using assms(1) by (intro of_nat_inverse [OF refl]) simp
  have split: "[0..<?n] = [0..<?M] @ ?M # [Suc ?M..<?n]"
    using assms(2) by (metis le_add1 less_imp_add_positive upt_add_eq_append upt_conv_Cons
        less_or_eq_imp_le zero_le)
  from binding_fold [of ?M layout i arrays m c] assms(2,3)
  obtain mid where
    mid: "fold (\<lambda>j acc. Option.bind acc (bindingStep layout i j)) [0..<?M] (Some (arrays, m, c))
            = Some (mid, slots_mapping i c (take ?M (set_slots layout i)) ++ m, c + of_nat ?M)"
    and lb: "length (bindingInfos mid) = ?M"
    by auto
  have "bindingStep layout i ?M
          (mid, slots_mapping i c (take ?M (set_slots layout i)) ++ m, c + of_nat ?M) = None"
    by (rule bindingStep_None) (simp add: lb)
  then show ?thesis
    unfolding bindingLoop_def n split
    by (simp add: mid fold_bind_None)
qed


lemma createSet_Inr:
  assumes cs: "createSet i (this, c, arrays, dev) = (Inr (this', c', arrays'), dev')"
    and lt: "length (at (m_bindings (m_layout this)) i) < 2 ^ 32"
    and same: "length (templateInfos arrays) = length (bindingInfos arrays)"
  shows "m_layout this' = m_layout this"
    and "m_mapping this' = slots_mapping i c (set_slots (m_layout this) i) ++ m_mapping this"
    and "c' = c + of_nat (length (at (m_bindings (m_layout this)) i))"
    and "m_bindingOffsets this' = put (m_bindingOffsets this) i c"
    and "length (at (m_bindings (m_layout this)) i) \<le> length (bindingInfos arrays)"
    and "length (bindingInfos arrays') = length (bindingInfos arrays)"
    and "length (templateInfos arrays') = length (bindingInfos arrays')"
proof -
  let ?n = "length (at (m_bindings (m_layout this)) i)"
  show fits: "?n \<le> length (bindingInfos arrays)"
  proof (rule ccontr)
    assume "\<not> ?n \<le> length (bindingInfos arrays)"
    then have "length (bindingInfos arrays) < ?n" by simp
    from bindingLoop_overflow [OF lt this same]
    have "bindingLoop (m_layout this) i (arrays, m_mapping this, c) = None" .
    with cs show False by (simp add: createSet_def Let_def)
  qed
  from bindingLoop_mapping [OF lt fits, of "m_mapping this" c] fits same
  obtain mid where
    loop: "bindingLoop (m_layout this) i (arrays, m_mapping this, c) =
             Some (mid, slots_mapping i c (set_slots (m_layout this) i) ++ m_mapping this,
                   c + of_nat ?n)"
    and lb: "length (bindingInfos mid) = length (bindingInfos arrays)"
    and lt': "length (templateInfos mid) = length (templateInfos arrays)"
    by auto
  from cs have r: "this' = this' \<and> m_layout this' = m_layout this
       \<and> m_mapping this' = slots_mapping i c (set_slots (m_layout this) i) ++ m_mapping this
       \<and> c' = c + of_nat ?n
       \<and> m_bindingOffsets this' = put (m_bindingOffsets this) i c
       \<and> arrays' = mid"
    by (auto simp: createSet_def Let_def loop split: prod.splits if_splits)
  from r show "m_layout this' = m_layout this" by simp
  from r show "m_mapping this' = slots_mapping i c (set_slots (m_layout this) i) ++ m_mapping this"
    by simp
  from r show "c' = c + of_nat ?n" by simp
  from r show "m_bindingOffsets this' = put (m_bindingOffsets this) i c" by simp
  from r lb show "length (bindingInfos arrays') = length (bindingInfos arrays)" by simp
  from r lb lt' same show "length (templateInfos arrays') = length (bindingInfos arrays')" by simp
qed

lemma setLoop_Inr:
  assumes "setLoop [0..<SetCount] (this, 0, arrays, dev) = (Inr (this', c', arrays'), dev')"
    and "\<forall>i<SetCount. length (at (m_bindings (m_layout this)) i) < 2 ^ 32"
    and "m_mapping this = Map.empty"
    and same: "length (templateInfos arrays) = length (bindingInfos arrays)"
  shows "m_layout this' = m_layout this"
    and "m_mapping this' =
           slots_mapping 2 (of_nat (length (at (m_bindings (m_layout this)) 0))
                            + of_nat (length (at (m_bindings (m_layout this)) 1)))
             (set_slots (m_layout this) 2)
           ++ (slots_mapping 1 (of_nat (length (at (m_bindings (m_layout this)) 0)))
                 (set_slots (m_layout this) 1)
           ++ slots_mapping 0 0 (set_slots (m_layout this) 0))"
    and "m_bindingOffsets this' =
           put (put (put (m_bindingOffsets this) 0 0) 1
                  (of_nat (length (at (m_bindings (m_layout this)) 0))))
             2 (of_nat (length (at (m_bindings (m_layout this)) 0))
                + of_nat (length (at (m_bindings (m_layout this)) 1)))"
    and "\<forall>i<SetCount. length (at (m_bindings (m_layout this)) i) \<le> length (bindingInfos arrays)"
proof -
  have idx: "[0..<SetCount] = [0, 1, 2]"
    by (simp add: SetCount_def upt_rec)
  have b0: "length (at (m_bindings (m_layout this)) 0) < 2 ^ 32"
    and b1: "length (at (m_bindings (m_layout this)) 1) < 2 ^ 32"
    and b2: "length (at (m_bindings (m_layout this)) 2) < 2 ^ 32"
    using assms(2) by (simp_all add: SetCount_def)
  from assms(1) obtain t0 c0 a0 d0 where
    s0: "createSet 0 (this, 0, arrays, dev) = (Inr (t0, c0, a0), d0)"
    and r0: "setLoop [1, 2] (t0, c0, a0, d0) = (Inr (this', c', arrays'), dev')"
    unfolding idx by (auto split: prod.splits sum.splits)
  note f0 = createSet_Inr [OF s0 b0 same]
  from r0 obtain t1 c1 a1 d1 where
    s1: "createSet 1 (t0, c0, a0, d0) = (Inr (t1, c1, a1), d1)"
    and r1: "setLoop [2] (t1, c1, a1, d1) = (Inr (this', c', arrays'), dev')"
    by (auto split: prod.splits sum.splits)
  have b1': "length (at (m_bindings (m_layout t0)) 1) < 2 ^ 32" using b1 f0(1) by simp
  note f1 = createSet_Inr [OF s1 b1' f0(7)]
  from r1 have s2: "createSet 2 (t1, c1, a1, d1) = (Inr (this', c', arrays'), dev')"
    by (auto split: prod.splits sum.splits)
  have b2': "length (at (m_bindings (m_layout t1)) 2) < 2 ^ 32" using b2 f0(1) f1(1) by simp
  note f2 = createSet_Inr [OF s2 b2' f1(7)]
  show "m_layout this' = m_layout this"
    using f0(1) f1(1) f2(1) by simp
  show "m_mapping this' =
           slots_mapping 2 (of_nat (length (at (m_bindings (m_layout this)) 0))
                            + of_nat (length (at (m_bindings (m_layout this)) 1)))
             (set_slots (m_layout this) 2)
           ++ (slots_mapping 1 (of_nat (length (at (m_bindings (m_layout this)) 0)))
                 (set_slots (m_layout this) 1)
           ++ slots_mapping 0 0 (set_slots (m_layout this) 0))"
    using f0(1-3) f1(1-3) f2(1-3) assms(3) by simp
  show "m_bindingOffsets this' =
           put (put (put (m_bindingOffsets this) 0 0) 1
                  (of_nat (length (at (m_bindings (m_layout this)) 0))))
             2 (of_nat (length (at (m_bindings (m_layout this)) 0))
                + of_nat (length (at (m_bindings (m_layout this)) 1)))"
    using f0(1-4) f1(1-4) f2(1-4) by simp
  have "length (at (m_bindings (m_layout this)) 0) \<le> length (bindingInfos arrays)"
    by (rule f0(5))
  moreover have "length (at (m_bindings (m_layout this)) 1) \<le> length (bindingInfos arrays)"
    using f1(5) f0(1) f0(6) by simp
  moreover have "length (at (m_bindings (m_layout this)) 2) \<le> length (bindingInfos arrays)"
    using f2(5) f0(1) f1(1) f0(6) f1(6) by simp
  ultimately show "\<forall>i<SetCount. length (at (m_bindings (m_layout this)) i) \<le> length (bindingInfos arrays)"
  proof -
    assume a: "length (at (m_bindings (m_layout this)) 0) \<le> length (bindingInfos arrays)"
      "length (at (m_bindings (m_layout this)) 1) \<le> length (bindingInfos arrays)"
      "length (at (m_bindings (m_layout this)) 2) \<le> length (bindingInfos arrays)"
    have "i = 0 \<or> i = 1 \<or> i = 2" if "i < SetCount" for i
      using that by (auto simp: SetCount_def)
    with a show ?thesis by auto
  qed
qed

lemma DxvkBindingLayoutObjects_new_Inr:
  assumes "DxvkBindingLayoutObjects_new MaxNumActiveBindings device layout = (Inr objects, device')"
    and "\<forall>i<SetCount. length (at (m_bindings layout) i) < 2 ^ 32"
  shows "m_layout objects = layout"
    and "m_mapping objects =
           slots_mapping 2 (of_nat (length (at (m_bindings layout) 0))
                            + of_nat (length (at (m_bindings layout) 1)))
             (set_slots layout 2)
           ++ (slots_mapping 1 (of_nat (length (at (m_bindings layout) 0))) (set_slots layout 1)
           ++ slots_mapping 0 0 (set_slots layout 0))"
    and "m_bindingOffsets objects =
           SetArray 0 (of_nat (length (at (m_bindings layout) 0)))
             (of_nat (length (at (m_bindings layout) 0)) + of_nat (length (at (m_bindings layout) 1)))"
    and "\<forall>i<SetCount. length (at (m_bindings layout) i) \<le> MaxNumActiveBindings"
proof -
  let ?init = "\<lparr>m_layout = layout,
                   m_pipelineLayout = VK_NULL_HANDLE,
                   m_setMask = 0,
                   m_setLayouts = SetArray VK_NULL_HANDLE VK_NULL_HANDLE VK_NULL_HANDLE,
                   m_setTemplates = SetArray VK_NULL_HANDLE VK_NULL_HANDLE VK_NULL_HANDLE,
                   m_bindingOffsets = SetArray 0 0 0,
                   m_mapping = Map.empty\<rparr>"
  let ?arrays = "\<lparr>bindingInfos = replicate MaxNumActiveBindings None,
                    templateInfos = replicate MaxNumActiveBindings None\<rparr>"
  from assms(1) obtain this1 cid arrays1 dev1 where
    loop: "setLoop [0..<SetCount] (?init, 0, ?arrays, device) = (Inr (this1, cid, arrays1), dev1)"
    and obj: "objects = this1\<lparr>m_pipelineLayout := fst (snd (vkCreatePipelineLayout dev1))\<rparr>"
    unfolding DxvkBindingLayoutObjects_new_def Let_def
    by (auto split: prod.splits sum.splits if_splits)
  have b: "\<forall>i<SetCount. length (at (m_bindings (m_layout ?init)) i) < 2 ^ 32"
    using assms(2) by simp
  have e: "m_mapping ?init = Map.empty" by simp
  have same: "length (templateInfos ?arrays) = length (bindingInfos ?arrays)" by simp
  note f = setLoop_Inr [OF loop b e same]
  show "m_layout objects = layout" using f(1) obj by simp
  show "m_mapping objects =
           slots_mapping 2 (of_nat (length (at (m_bindings layout) 0))
                            + of_nat (length (at (m_bindings layout) 1)))
             (set_slots layout 2)
           ++ (slots_mapping 1 (of_nat (length (at (m_bindings layout) 0))) (set_slots layout 1)
           ++ slots_mapping 0 0 (set_slots layout 0))"
    using f(2) obj by simp
  show "m_bindingOffsets objects =
           SetArray 0 (of_nat (length (at (m_bindings layout) 0)))
             (of_nat (length (at (m_bindings layout) 0)) + of_nat (length (at (m_bindings layout) 1)))"
    using f(3) obj by simp
  show "\<forall>i<SetCount. length (at (m_bindings layout) i) \<le> MaxNumActiveBindings"
    using f(4) by simp
qed


lemma slots_mapping_None: "slots_mapping i c xs s = None \<longleftrightarrow> s \<notin> set xs"
  by (simp add: slots_mapping_def first_index_None)

lemma slots_mapping_Some:
  assumes "s \<in> set xs"
  shows "\<exists>j<length xs. xs ! j = s \<and> (\<forall>k<j. xs ! k \<noteq> s)
           \<and> slots_mapping i c xs s
               = Some \<lparr>set' = of_nat i, binding = of_nat j, constId = c + of_nat j\<rparr>"
proof -
  from assms obtain j where j: "first_index s xs = Some j"
    using first_index_None [of s xs] by (cases "first_index s xs") auto
  from first_index_Some [OF j] j show ?thesis
    by (auto simp: slots_mapping_def)
qed

lemma all_less_SetCount: "(\<forall>i<SetCount. P i) \<longleftrightarrow> P 0 \<and> P 1 \<and> P 2"
proof -
  have "i < 3 \<longleftrightarrow> i = 0 \<or> i = 1 \<or> i = 2" for i :: nat by arith
  then show ?thesis by (auto simp: SetCount_def)
qed

lemma lookupBinding_m_mapping: "lookupBinding objects slot = m_mapping objects slot"
  by (simp add: lookupBinding_def split: option.splits)

text \<open>A set with more entries than the local arrays hold never yields an object.\<close>

lemma DxvkBindingLayoutObjects_new_fits:
  "DxvkBindingLayoutObjects_new MaxNumActiveBindings device layout = (Inr objects, device') \<Longrightarrow>
   \<forall>i<SetCount. length (at (m_bindings layout) i) < 2 ^ 32 \<Longrightarrow>
   \<forall>i<SetCount. length (at (m_bindings layout) i) \<le> MaxNumActiveBindings"
  by (rule DxvkBindingLayoutObjects_new_Inr(4))

lemma DxvkBindingLayoutObjects_new_overflow:
  assumes "MaxNumActiveBindings < length (at (m_bindings layout) 0)"
    and "length (at (m_bindings layout) 0) < 2 ^ 32"
  shows "DxvkBindingLayoutObjects_new MaxNumActiveBindings device layout = (Inl OutOfBounds, device)"
proof -
  let ?arrays = "\<lparr>bindingInfos = replicate MaxNumActiveBindings None,
                    templateInfos = replicate MaxNumActiveBindings None\<rparr>"
  have "bindingLoop layout 0 (?arrays, Map.empty, 0) = None"
    by (rule bindingLoop_overflow) (use assms in simp_all)
  then show ?thesis
    by (simp add: DxvkBindingLayoutObjects_new_def createSet_def Let_def SetCount_def upt_rec)
qed

text \<open>
  Claim C10. Let the construction of the layout objects succeed, for a layout whose sets
  have at most \<open>MaxNumActiveBindings\<close> entries each, the size of the constructor's local
  arrays (a size below \<open>2^32\<close>). Then \<open>lookupBinding\<close> finds nothing for a slot exactly
  when the slot occurs in no set. When the slot occurs in set \<open>i\<close> and in no set of lower
  index, \<open>lookupBinding\<close> returns the mapping recorded for the first entry \<open>j\<close> of set \<open>i\<close>
  with that slot: set \<open>i\<close>, binding \<open>j\<close>, and the number of that binding counted from the
  first binding of the set on. Occurrences in sets of higher index do not show.
\<close>

theorem lookupBinding_lowest_set:
  "DxvkBindingLayoutObjects_new MaxNumActiveBindings device layout = (Inr objects, device') \<Longrightarrow>
   \<forall>i<SetCount. length (at (m_bindings layout) i) \<le> MaxNumActiveBindings \<Longrightarrow>
   MaxNumActiveBindings < 2 ^ 32 \<Longrightarrow>
   (lookupBinding objects slot = None \<longleftrightarrow> (\<forall>i<SetCount. slot \<notin> set (set_slots layout i)))
   \<and> (\<forall>i<SetCount.
        slot \<in> set (set_slots layout i) \<and> (\<forall>k<i. slot \<notin> set (set_slots layout k)) \<longrightarrow>
        (\<exists>j<length (set_slots layout i).
            set_slots layout i ! j = slot
          \<and> (\<forall>k<j. set_slots layout i ! k \<noteq> slot)
          \<and> lookupBinding objects slot
              = Some \<lparr>set' = of_nat i, binding = of_nat j,
                      constId = at (m_bindingOffsets objects) i + of_nat j\<rparr>))"
proof -
  assume new: "DxvkBindingLayoutObjects_new MaxNumActiveBindings device layout = (Inr objects, device')"
    and fits: "\<forall>i<SetCount. length (at (m_bindings layout) i) \<le> MaxNumActiveBindings"
    and limit: "MaxNumActiveBindings < 2 ^ 32"
  have len: "\<forall>i<SetCount. length (at (m_bindings layout) i) < 2 ^ 32"
    using fits limit by (auto intro: le_less_trans)
  let ?n0 = "of_nat (length (at (m_bindings layout) 0)) :: 32 word"
  let ?n1 = "of_nat (length (at (m_bindings layout) 1)) :: 32 word"
  let ?A0 = "slots_mapping 0 0 (set_slots layout 0)"
  let ?A1 = "slots_mapping 1 ?n0 (set_slots layout 1)"
  let ?A2 = "slots_mapping 2 (?n0 + ?n1) (set_slots layout 2)"
  note f = DxvkBindingLayoutObjects_new_Inr [OF new len]
  have look: "lookupBinding objects slot =
      (case ?A0 slot of Some v \<Rightarrow> Some v
       | None \<Rightarrow> (case ?A1 slot of Some v \<Rightarrow> Some v | None \<Rightarrow> ?A2 slot))"
    by (simp add: lookupBinding_m_mapping f(2) map_add_def split: option.splits)
  have off: "at (m_bindingOffsets objects) 0 = 0"
    "at (m_bindingOffsets objects) 1 = ?n0"
    "at (m_bindingOffsets objects) (Suc 0) = ?n0"
    "at (m_bindingOffsets objects) 2 = ?n0 + ?n1"
    by (simp_all add: f(3))
  have none: "lookupBinding objects slot = None \<longleftrightarrow> (\<forall>i<SetCount. slot \<notin> set (set_slots layout i))"
  proof -
    have "lookupBinding objects slot = None
            \<longleftrightarrow> ?A0 slot = None \<and> ?A1 slot = None \<and> ?A2 slot = None"
      unfolding look by (simp split: option.splits)
    then show ?thesis
      unfolding all_less_SetCount by (simp only: slots_mapping_None)
  qed
  have s0: "\<exists>j<length (set_slots layout 0).
            set_slots layout 0 ! j = slot
          \<and> (\<forall>k<j. set_slots layout 0 ! k \<noteq> slot)
          \<and> lookupBinding objects slot
              = Some \<lparr>set' = of_nat 0, binding = of_nat j,
                      constId = at (m_bindingOffsets objects) 0 + of_nat j\<rparr>"
    if "slot \<in> set (set_slots layout 0)"
    using slots_mapping_Some [OF that, of 0 0] by (auto simp: look off)
  have s1: "\<exists>j<length (set_slots layout 1).
            set_slots layout 1 ! j = slot
          \<and> (\<forall>k<j. set_slots layout 1 ! k \<noteq> slot)
          \<and> lookupBinding objects slot
              = Some \<lparr>set' = of_nat 1, binding = of_nat j,
                      constId = at (m_bindingOffsets objects) 1 + of_nat j\<rparr>"
    if "slot \<in> set (set_slots layout 1)" and "slot \<notin> set (set_slots layout 0)"
  proof -
    have "?A0 slot = None" using that(2) by (simp add: slots_mapping_None)
    then show ?thesis
      using slots_mapping_Some [OF that(1), of 1 ?n0] by (auto simp: look off)
  qed
  have s2: "\<exists>j<length (set_slots layout 2).
            set_slots layout 2 ! j = slot
          \<and> (\<forall>k<j. set_slots layout 2 ! k \<noteq> slot)
          \<and> lookupBinding objects slot
              = Some \<lparr>set' = of_nat 2, binding = of_nat j,
                      constId = at (m_bindingOffsets objects) 2 + of_nat j\<rparr>"
    if "slot \<in> set (set_slots layout 2)" and "slot \<notin> set (set_slots layout 0)"
      and "slot \<notin> set (set_slots layout 1)"
  proof -
    have "?A0 slot = None" "?A1 slot = None"
      using that(2,3) by (simp_all add: slots_mapping_None)
    then show ?thesis
      using slots_mapping_Some [OF that(1), of 2 "?n0 + ?n1"] by (auto simp: look off)
  qed
  have some: "\<forall>i<SetCount.
        slot \<in> set (set_slots layout i) \<and> (\<forall>k<i. slot \<notin> set (set_slots layout k)) \<longrightarrow>
        (\<exists>j<length (set_slots layout i).
            set_slots layout i ! j = slot
          \<and> (\<forall>k<j. set_slots layout i ! k \<noteq> slot)
          \<and> lookupBinding objects slot
              = Some \<lparr>set' = of_nat i, binding = of_nat j,
                      constId = at (m_bindingOffsets objects) i + of_nat j\<rparr>)"
    unfolding all_less_SetCount
  proof (intro conjI impI)
    assume "slot \<in> set (set_slots layout 0) \<and> (\<forall>k<0. slot \<notin> set (set_slots layout k))"
    then show "\<exists>j<length (set_slots layout 0).
            set_slots layout 0 ! j = slot
          \<and> (\<forall>k<j. set_slots layout 0 ! k \<noteq> slot)
          \<and> lookupBinding objects slot
              = Some \<lparr>set' = of_nat 0, binding = of_nat j,
                      constId = at (m_bindingOffsets objects) 0 + of_nat j\<rparr>"
      using s0 by blast
  next
    assume a: "slot \<in> set (set_slots layout 1) \<and> (\<forall>k<1. slot \<notin> set (set_slots layout k))"
    then have "slot \<notin> set (set_slots layout 0)" by simp
    with a show "\<exists>j<length (set_slots layout 1).
            set_slots layout 1 ! j = slot
          \<and> (\<forall>k<j. set_slots layout 1 ! k \<noteq> slot)
          \<and> lookupBinding objects slot
              = Some \<lparr>set' = of_nat 1, binding = of_nat j,
                      constId = at (m_bindingOffsets objects) 1 + of_nat j\<rparr>"
      using s1 by blast
  next
    assume a: "slot \<in> set (set_slots layout 2) \<and> (\<forall>k<2. slot \<notin> set (set_slots layout k))"
    then have "slot \<notin> set (set_slots layout 0)" "slot \<notin> set (set_slots layout 1)" by simp_all
    with a show "\<exists>j<length (set_slots layout 2).
            set_slots layout 2 ! j = slot
          \<and> (\<forall>k<j. set_slots layout 2 ! k \<noteq> slot)
          \<and> lookupBinding objects slot
              = Some \<lparr>set' = of_nat 2, binding = of_nat j,
                      constId = at (m_bindingOffsets objects) 2 + of_nat j\<rparr>"
      using s2 by blast
  qed
  from none some show ?thesis by blast
qed

theorem lookupBinding_lowest_set_witness:
  "(let layout =
      \<lparr>m_bindings = SetArray
         [\<lparr>descriptorType = VK_DESCRIPTOR_TYPE_SAMPLED_IMAGE, resourceBinding = 5,
           viewType = VK_IMAGE_VIEW_TYPE_2D, stages = 0x10, access = 0x20\<rparr>]
         []
         [\<lparr>descriptorType = VK_DESCRIPTOR_TYPE_UNIFORM_BUFFER, resourceBinding = 6,
           viewType = VK_IMAGE_VIEW_TYPE_MAX_ENUM, stages = 0x01, access = 0x20\<rparr>,
          \<lparr>descriptorType = VK_DESCRIPTOR_TYPE_UNIFORM_BUFFER, resourceBinding = 5,
           viewType = VK_IMAGE_VIEW_TYPE_MAX_ENUM, stages = 0x01, access = 0x20\<rparr>,
          \<lparr>descriptorType = VK_DESCRIPTOR_TYPE_UNIFORM_BUFFER, resourceBinding = 7,
           viewType = VK_IMAGE_VIEW_TYPE_MAX_ENUM, stages = 0x01, access = 0x20\<rparr>],
       m_pushConst = \<lparr>stageFlags = 0, offset = 0, size' = 0\<rparr>\<rparr>;
       result = DxvkBindingLayoutObjects_new 4 (newDevice []) layout;
       objects = projr (fst result)
    in result = (Inr objects, snd result)
     \<and> (\<forall>i<SetCount. length (at (m_bindings layout) i) \<le> 4)
     \<and> (4::nat) < 2 ^ 32
     \<and> lookupBinding objects 5 = Some \<lparr>set' = 0, binding = 0, constId = 0\<rparr>
     \<and> lookupBinding objects 7 = Some \<lparr>set' = 2, binding = 2, constId = 3\<rparr>
     \<and> lookupBinding objects 9 = None)"
proof -
  let ?layout = "\<lparr>m_bindings = SetArray
         [\<lparr>descriptorType = VK_DESCRIPTOR_TYPE_SAMPLED_IMAGE, resourceBinding = 5,
           viewType = VK_IMAGE_VIEW_TYPE_2D, stages = 0x10, access = 0x20\<rparr>]
         []
         [\<lparr>descriptorType = VK_DESCRIPTOR_TYPE_UNIFORM_BUFFER, resourceBinding = 6,
           viewType = VK_IMAGE_VIEW_TYPE_MAX_ENUM, stages = 0x01, access = 0x20\<rparr>,
          \<lparr>descriptorType = VK_DESCRIPTOR_TYPE_UNIFORM_BUFFER, resourceBinding = 5,
           viewType = VK_IMAGE_VIEW_TYPE_MAX_ENUM, stages = 0x01, access = 0x20\<rparr>,
          \<lparr>descriptorType = VK_DESCRIPTOR_TYPE_UNIFORM_BUFFER, resourceBinding = 7,
           viewType = VK_IMAGE_VIEW_TYPE_MAX_ENUM, stages = 0x01, access = 0x20\<rparr>],
       m_pushConst = \<lparr>stageFlags = 0, offset = 0, size' = 0\<rparr>\<rparr>"
  let ?result = "DxvkBindingLayoutObjects_new 4 (newDevice []) ?layout"
  let ?objects = "projr (fst ?result)"
  have new: "?result = (Inr ?objects, snd ?result)"
    by (simp add: objects_eval device_eval SetCount_def upt_rec)
  have len: "\<forall>i<SetCount. length (at (m_bindings ?layout) i) \<le> 4"
    by (simp add: all_less_SetCount)
  have limit: "(4::nat) < 2 ^ 32" by simp
  have five: "lookupBinding ?objects 5 = Some \<lparr>set' = 0, binding = 0, constId = 0\<rparr>"
    using lookupBinding_lowest_set [OF new len limit, of 5]
    by (simp add: lookupBinding_def objects_eval device_eval SetCount_def upt_rec)
  have seven: "lookupBinding ?objects 7 = Some \<lparr>set' = 2, binding = 2, constId = 3\<rparr>"
    using lookupBinding_lowest_set [OF new len limit, of 7]
    by (simp add: lookupBinding_def objects_eval device_eval SetCount_def upt_rec)
  have nine: "lookupBinding ?objects 9 = None"
    using lookupBinding_lowest_set [OF new len limit, of 9]
    by (simp add: lookupBinding_def objects_eval device_eval SetCount_def upt_rec)
  from new len limit five seven nine show ?thesis
    unfolding Let_def by blast
qed


section \<open>The single-set constructor releases what it has created\<close>

lemma vkCreate_failure:
  "vkCreate kind dev = (res, h, dev') \<Longrightarrow> res \<noteq> VK_SUCCESS \<Longrightarrow> liveObjects dev' = liveObjects dev"
  by (auto simp: vkCreate_def Let_def split: if_splits)

lemma vkCreate_success:
  "vkCreate kind dev = (VK_SUCCESS, h, dev') \<Longrightarrow>
   h \<noteq> VK_NULL_HANDLE \<and> liveObjects dev' = kind h # liveObjects dev"
  by (auto simp: vkCreate_def Let_def VK_NULL_HANDLE_def split: if_splits)

lemma DxvkPipelineLayout_new_failure_releases:
  assumes "DxvkPipelineLayout_new MaxNumActiveBindings vkd slotMapping = (Inl e, vkd')"
  shows "liveObjects vkd' = liveObjects vkd"
  using assms
  unfolding DxvkPipelineLayout_new_def Let_def
    vkCreateDescriptorSetLayout_def vkCreatePipelineLayout_def vkCreateDescriptorUpdateTemplate_def
    vkDestroyDescriptorSetLayout_def vkDestroyPipelineLayout_def
  by (auto simp: vkDestroy_def split: if_splits prod.splits
      dest!: vkCreate_success dest: vkCreate_failure)


section \<open>The caches of the pipeline manager\<close>

lemma DxvkBindingInfo_eq_iff: "eq a b \<longleftrightarrow> a = b"
  by (cases a, cases b) (auto simp: eq_def)

lemma set_array_eq_iff:
  "a = b \<longleftrightarrow> (\<forall>i<SetCount. at a i = at b i)"
  by (cases a, cases b) (auto simp: all_less_SetCount)

lemma DxvkBindingLayout_eq_iff: "DxvkBindingLayout_eq a b \<longleftrightarrow> a = b"
proof -
  have lists: "m_bindings a = m_bindings b \<longleftrightarrow>
      (\<forall>i<SetCount. length (at (m_bindings a) i) = length (at (m_bindings b) i))
    \<and> (\<forall>i<SetCount. \<forall>j<length (at (m_bindings a) i).
          eq (at (m_bindings a) i ! j) (at (m_bindings b) i ! j))"
    unfolding DxvkBindingInfo_eq_iff set_array_eq_iff [of "m_bindings a"] list_eq_iff_nth_eq by auto
  have pc: "m_pushConst a = m_pushConst b \<longleftrightarrow>
      stageFlags (m_pushConst a) = stageFlags (m_pushConst b)
    \<and> offset (m_pushConst a) = offset (m_pushConst b)
    \<and> size' (m_pushConst a) = size' (m_pushConst b)"
    by (cases "m_pushConst a", cases "m_pushConst b") auto
  have unfolded: "DxvkBindingLayout_eq a b \<longleftrightarrow>
      ((\<forall>i<SetCount. length (at (m_bindings a) i) = length (at (m_bindings b) i))
    \<and> (\<forall>i<SetCount. \<forall>j<length (at (m_bindings a) i).
          eq (at (m_bindings a) i ! j) (at (m_bindings b) i ! j)))
    \<and> (stageFlags (m_pushConst a) = stageFlags (m_pushConst b)
    \<and> offset (m_pushConst a) = offset (m_pushConst b)
    \<and> size' (m_pushConst a) = size' (m_pushConst b))"
    unfolding DxvkBindingLayout_eq_def list_ex_iff
    by (simp add: Bex_def)
  have "a = b \<longleftrightarrow> m_bindings a = m_bindings b \<and> m_pushConst a = m_pushConst b"
    by (cases a, cases b) auto
  then show ?thesis
    unfolding unfolded lists pc by (rule sym)
qed

lemma umap_find_Some:
  "umap_find key_eq k es = Some i \<Longrightarrow> i < length es \<and> key_eq (fst (es ! i)) k"
proof (induction es arbitrary: i)
  case Nil
  then show ?case by simp
next
  case (Cons e es)
  then show ?case by (cases "key_eq (fst e) k") (auto simp: nth_Cons')
qed

lemma umap_find_append:
  "umap_find key_eq k (es @ [e]) =
     (case umap_find key_eq k es of
        Some i \<Rightarrow> Some i
      | None \<Rightarrow> if key_eq (fst e) k then Some (length es) else None)"
  by (induction es) (auto split: option.splits)

lemma createPipelineLayout_Inr:
  assumes "createPipelineLayout MaxNumActiveBindings this layout = (Inr r, this')"
  shows "umap_find DxvkBindingLayout_eq layout (m_pipelineLayouts this') = Some r"
    and "umap_find DxvkBindingLayout_eq k (m_pipelineLayouts this) = Some i \<Longrightarrow>
         umap_find DxvkBindingLayout_eq k (m_pipelineLayouts this') = Some i"
    and "m_graphicsPipelines this' = m_graphicsPipelines this"
    and "m_computePipelines this' = m_computePipelines this"
  using assms
  by (auto simp: createPipelineLayout_def umap_find_append DxvkBindingLayout_eq_iff
      split: option.splits prod.splits sum.splits)

lemma createPipelineLayout_Inl:
  assumes "createPipelineLayout MaxNumActiveBindings this layout = (Inl e, this')"
  shows "m_pipelineLayouts this' = m_pipelineLayouts this"
    and "m_graphicsPipelines this' = m_graphicsPipelines this"
    and "m_computePipelines this' = m_computePipelines this"
  using assms
  by (auto simp: createPipelineLayout_def split: option.splits prod.splits sum.splits)

lemma layouts_resolved_new: "layouts_resolved getBindings (DxvkPipelineManager_new device)"
  by (simp add: layouts_resolved_def DxvkPipelineManager_new_def)

lemma layouts_resolved_createGraphicsPipeline:
  assumes "layouts_resolved getBindings this"
    and "createGraphicsPipeline MaxNumActiveBindings getBindings this shaders = (res, this')"
  shows "layouts_resolved getBindings this'"
proof (cases "vs shaders")
  case None
  with assms show ?thesis by (simp add: createGraphicsPipeline_def)
next
  case (Some v)
  show ?thesis
  proof (cases "umap_find (=) shaders (m_graphicsPipelines this)")
    case (Some p)
    with \<open>vs shaders = Some v\<close> assms show ?thesis by (simp add: createGraphicsPipeline_def)
  next
    case None
    obtain r mid where cpl: "createPipelineLayout MaxNumActiveBindings this (mergedLayout getBindings shaders) = (r, mid)"
      by (cases "createPipelineLayout MaxNumActiveBindings this (mergedLayout getBindings shaders)")
    show ?thesis
    proof (cases r)
      case (Inl e)
      with cpl None \<open>vs shaders = Some v\<close> assms(2) have "this' = mid"
        by (simp add: createGraphicsPipeline_def)
      with createPipelineLayout_Inl [OF cpl [unfolded Inl]] assms(1) show ?thesis
        by (simp add: layouts_resolved_def)
    next
      case (Inr layout)
      with cpl None \<open>vs shaders = Some v\<close> assms(2)
      have this': "this' = mid\<lparr>m_graphicsPipelines := m_graphicsPipelines mid
                            @ [(shaders, \<lparr>gp_shaders = shaders, gp_layout = layout\<rparr>)]\<rparr>"
        by (simp add: createGraphicsPipeline_def)
      note f = createPipelineLayout_Inr [OF cpl [unfolded Inr]]
      have old: "list_all (\<lambda>e. umap_find DxvkBindingLayout_eq (mergedLayout getBindings (fst e))
                      (m_pipelineLayouts mid) = Some (gp_layout (snd e)))
                   (m_graphicsPipelines this)"
        using assms(1) f(2) by (auto simp: layouts_resolved_def list_all_iff)
      show ?thesis
        using old f(1) f(3) by (simp add: layouts_resolved_def this')
    qed
  qed
qed

lemma layouts_resolved_createComputePipeline:
  assumes "layouts_resolved getBindings this"
    and "createComputePipeline MaxNumActiveBindings getBindings this shaders = (res, this')"
  shows "layouts_resolved getBindings this'"
proof (cases "cs shaders")
  case None
  with assms show ?thesis by (simp add: createComputePipeline_def)
next
  case (Some c)
  show ?thesis
  proof (cases "umap_find (=) shaders (m_computePipelines this)")
    case (Some p)
    with \<open>cs shaders = Some c\<close> assms show ?thesis by (simp add: createComputePipeline_def)
  next
    case None
    obtain r mid where cpl: "createPipelineLayout MaxNumActiveBindings this (getBindings c) = (r, mid)"
      by (cases "createPipelineLayout MaxNumActiveBindings this (getBindings c)")
    show ?thesis
    proof (cases r)
      case (Inl e)
      with cpl None \<open>cs shaders = Some c\<close> assms(2) have "this' = mid"
        by (simp add: createComputePipeline_def)
      with createPipelineLayout_Inl [OF cpl [unfolded Inl]] assms(1) show ?thesis
        by (simp add: layouts_resolved_def)
    next
      case (Inr layout)
      with cpl None \<open>cs shaders = Some c\<close> assms(2)
      have this': "this' = mid\<lparr>m_computePipelines := m_computePipelines mid
                            @ [(shaders, \<lparr>cp_shaders = shaders, cp_layout = layout\<rparr>)]\<rparr>"
        by (simp add: createComputePipeline_def)
      note f = createPipelineLayout_Inr [OF cpl [unfolded Inr]]
      show ?thesis
        using assms(1) f(2) f(3) by (auto simp: layouts_resolved_def list_all_iff this')
    qed
  qed
qed

lemma layouts_resolved_run_call:
  "layouts_resolved getBindings this \<Longrightarrow> layouts_resolved getBindings (run_call MaxNumActiveBindings getBindings this c)"
proof (cases c)
  case (CreateComputePipeline shaders)
  assume "layouts_resolved getBindings this"
  then show ?thesis
    unfolding CreateComputePipeline run_call.simps
    by (rule layouts_resolved_createComputePipeline) (rule surjective_pairing)
next
  case (CreateGraphicsPipeline shaders)
  assume "layouts_resolved getBindings this"
  then show ?thesis
    unfolding CreateGraphicsPipeline run_call.simps
    by (rule layouts_resolved_createGraphicsPipeline) (rule surjective_pairing)
qed

lemma layouts_resolved_fold_run_call:
  "layouts_resolved getBindings this \<Longrightarrow>
   layouts_resolved getBindings (fold (\<lambda>c this. run_call MaxNumActiveBindings getBindings this c) calls this)"
  by (induction calls arbitrary: this) (simp_all add: layouts_resolved_run_call)

lemma layouts_resolved_run_calls: "layouts_resolved getBindings (run_calls MaxNumActiveBindings getBindings device calls)"
  unfolding run_calls_def
  by (rule layouts_resolved_fold_run_call [OF layouts_resolved_new])

lemma createGraphicsPipeline_Some:
  assumes "createGraphicsPipeline MaxNumActiveBindings getBindings this shaders = (Inr (Some p), this')"
  shows "p < length (m_graphicsPipelines this')"
    and "fst (m_graphicsPipelines this' ! p) = shaders"
    and "\<exists>new. m_graphicsPipelines this' = m_graphicsPipelines this @ new"
proof -
  from assms obtain v where v: "vs shaders = Some v"
    by (cases "vs shaders") (auto simp: createGraphicsPipeline_def)
  show "p < length (m_graphicsPipelines this')"
    and "fst (m_graphicsPipelines this' ! p) = shaders"
    and "\<exists>new. m_graphicsPipelines this' = m_graphicsPipelines this @ new"
  proof (atomize (full), cases "umap_find (=) shaders (m_graphicsPipelines this)")
    case (Some q)
    with v assms have "p = q" "this' = this" by (simp_all add: createGraphicsPipeline_def)
    with umap_find_Some [OF Some]
    show "p < length (m_graphicsPipelines this')
        \<and> fst (m_graphicsPipelines this' ! p) = shaders
        \<and> (\<exists>new. m_graphicsPipelines this' = m_graphicsPipelines this @ new)"
      by simp
  next
    case None
    obtain r mid where cpl: "createPipelineLayout MaxNumActiveBindings this (mergedLayout getBindings shaders) = (r, mid)"
      by (cases "createPipelineLayout MaxNumActiveBindings this (mergedLayout getBindings shaders)")
    with None v assms obtain layout where r: "r = Inr layout"
      by (cases r) (auto simp: createGraphicsPipeline_def)
    with cpl None v assms
    have this': "this' = mid\<lparr>m_graphicsPipelines := m_graphicsPipelines mid
                            @ [(shaders, \<lparr>gp_shaders = shaders, gp_layout = layout\<rparr>)]\<rparr>"
      and p: "p = length (m_graphicsPipelines mid)"
      by (simp_all add: createGraphicsPipeline_def)
    note f = createPipelineLayout_Inr [OF cpl [unfolded r]]
    show "p < length (m_graphicsPipelines this')
        \<and> fst (m_graphicsPipelines this' ! p) = shaders
        \<and> (\<exists>new. m_graphicsPipelines this' = m_graphicsPipelines this @ new)"
      using f(3) by (simp add: this' p)
  qed
qed


text \<open>
  Claim C6. Let the manager be in a state where every cached graphics pipeline refers to
  the layout objects that a lookup of its merged layout finds; every state that a
  sequence of creation calls leads to from a new manager is one
  (\<open>layouts_resolved_run_calls\<close>). Let two calls of \<open>createGraphicsPipeline\<close>, one after
  the other, with different shader sets whose merged layouts are equal in the sense of
  \<open>DxvkBindingLayout::eq\<close>, return pipelines. Then the two pipelines are different entries
  of the graphics pipeline cache, stored under the two shader sets, and they refer to
  the same entry of the layout objects cache, which is the entry stored under the merged
  layout.
\<close>

theorem equal_layouts_share_objects:
  "layouts_resolved getBindings this \<Longrightarrow>
   createGraphicsPipeline MaxNumActiveBindings getBindings this shaders1 = (Inr (Some p1), this1) \<Longrightarrow>
   createGraphicsPipeline MaxNumActiveBindings getBindings this1 shaders2 = (Inr (Some p2), this2) \<Longrightarrow>
   shaders1 \<noteq> shaders2 \<Longrightarrow>
   DxvkBindingLayout_eq (mergedLayout getBindings shaders1) (mergedLayout getBindings shaders2) \<Longrightarrow>
   p1 \<noteq> p2
   \<and> p1 < length (m_graphicsPipelines this2)
   \<and> p2 < length (m_graphicsPipelines this2)
   \<and> fst (m_graphicsPipelines this2 ! p1) = shaders1
   \<and> fst (m_graphicsPipelines this2 ! p2) = shaders2
   \<and> gp_layout (snd (m_graphicsPipelines this2 ! p1))
       = gp_layout (snd (m_graphicsPipelines this2 ! p2))
   \<and> gp_layout (snd (m_graphicsPipelines this2 ! p1)) < length (m_pipelineLayouts this2)
   \<and> DxvkBindingLayout_eq
         (fst (m_pipelineLayouts this2 ! gp_layout (snd (m_graphicsPipelines this2 ! p1))))
         (mergedLayout getBindings shaders1)"
proof -
  assume inv: "layouts_resolved getBindings this"
    and c1: "createGraphicsPipeline MaxNumActiveBindings getBindings this shaders1 = (Inr (Some p1), this1)"
    and c2: "createGraphicsPipeline MaxNumActiveBindings getBindings this1 shaders2 = (Inr (Some p2), this2)"
    and ne: "shaders1 \<noteq> shaders2"
    and same: "DxvkBindingLayout_eq (mergedLayout getBindings shaders1) (mergedLayout getBindings shaders2)"
  let ?gps = "m_graphicsPipelines this2"
  have inv1: "layouts_resolved getBindings this1"
    by (rule layouts_resolved_createGraphicsPipeline [OF inv c1])
  have inv2: "layouts_resolved getBindings this2"
    by (rule layouts_resolved_createGraphicsPipeline [OF inv1 c2])
  note s1 = createGraphicsPipeline_Some [OF c1]
  note s2 = createGraphicsPipeline_Some [OF c2]
  from s2(3) obtain new where new: "?gps = m_graphicsPipelines this1 @ new" ..
  have p1: "p1 < length ?gps" using s1(1) new by simp
  have e1: "?gps ! p1 = m_graphicsPipelines this1 ! p1"
    using s1(1) new by (simp add: nth_append)
  have k1: "fst (?gps ! p1) = shaders1" using e1 s1(2) by simp
  have k2: "fst (?gps ! p2) = shaders2" by (rule s2(2))
  have ne12: "p1 \<noteq> p2" using k1 k2 ne by auto
  have res: "umap_find DxvkBindingLayout_eq (mergedLayout getBindings (fst (?gps ! p)))
               (m_pipelineLayouts this2) = Some (gp_layout (snd (?gps ! p)))"
    if "p < length ?gps" for p
    using inv2 that by (simp add: layouts_resolved_def list_all_length)
  have m: "mergedLayout getBindings shaders1 = mergedLayout getBindings shaders2"
    using same by (simp add: DxvkBindingLayout_eq_iff)
  have f1: "umap_find DxvkBindingLayout_eq (mergedLayout getBindings shaders1)
               (m_pipelineLayouts this2) = Some (gp_layout (snd (?gps ! p1)))"
    using res [OF p1] k1 by simp
  have f2: "umap_find DxvkBindingLayout_eq (mergedLayout getBindings shaders1)
               (m_pipelineLayouts this2) = Some (gp_layout (snd (?gps ! p2)))"
    using res [OF s2(1)] k2 m by simp
  have l: "gp_layout (snd (?gps ! p1)) = gp_layout (snd (?gps ! p2))"
    using f1 f2 by simp
  from umap_find_Some [OF f1] p1 s2(1) k1 k2 ne12 l show ?thesis by simp
qed

lemmas manager_eval =
  createGraphicsPipeline_def createPipelineLayout_def mergedLayout_def mergeStage_def
  DxvkPipelineManager_new_def DxvkBindingLayout_eq_def eq_def

theorem equal_layouts_share_objects_witness:
  "(let getBindings = (\<lambda>sh::nat.
          if sh = 3
          then addBinding DxvkBindingLayout_new
                 \<lparr>descriptorType = VK_DESCRIPTOR_TYPE_SAMPLED_IMAGE, resourceBinding = 1,
                  viewType = VK_IMAGE_VIEW_TYPE_2D, stages = 0x10, access = 0x20\<rparr>
          else addBinding DxvkBindingLayout_new
                 \<lparr>descriptorType = VK_DESCRIPTOR_TYPE_UNIFORM_BUFFER, resourceBinding = 0,
                  viewType = VK_IMAGE_VIEW_TYPE_MAX_ENUM, stages = 0x01, access = 0x20\<rparr>);
        this = DxvkPipelineManager_new (newDevice []);
        shaders1 = \<lparr>vs = Some 1, tcs = None, tes = None, gs = None, fs = Some 3\<rparr>;
        shaders2 = \<lparr>vs = Some 2, tcs = None, tes = None, gs = None, fs = Some 3\<rparr>;
        result1 = createGraphicsPipeline 4 getBindings this shaders1;
        result2 = createGraphicsPipeline 4 getBindings (snd result1) shaders2
    in layouts_resolved getBindings this
     \<and> result1 = (Inr (Some 0), snd result1)
     \<and> result2 = (Inr (Some 1), snd result2)
     \<and> shaders1 \<noteq> shaders2
     \<and> DxvkBindingLayout_eq (mergedLayout getBindings shaders1) (mergedLayout getBindings shaders2)
     \<and> length (m_graphicsPipelines (snd result2)) = 2
     \<and> length (m_pipelineLayouts (snd result2)) = 1
     \<and> gp_layout (snd (m_graphicsPipelines (snd result2) ! 0)) = 0
     \<and> gp_layout (snd (m_graphicsPipelines (snd result2) ! 1)) = 0)"
proof -
  let ?gb = "\<lambda>sh::nat.
          if sh = 3
          then addBinding DxvkBindingLayout_new
                 \<lparr>descriptorType = VK_DESCRIPTOR_TYPE_SAMPLED_IMAGE, resourceBinding = 1,
                  viewType = VK_IMAGE_VIEW_TYPE_2D, stages = 0x10, access = 0x20\<rparr>
          else addBinding DxvkBindingLayout_new
                 \<lparr>descriptorType = VK_DESCRIPTOR_TYPE_UNIFORM_BUFFER, resourceBinding = 0,
                  viewType = VK_IMAGE_VIEW_TYPE_MAX_ENUM, stages = 0x01, access = 0x20\<rparr>"
  let ?this = "DxvkPipelineManager_new (newDevice [])"
  let ?s1 = "\<lparr>vs = Some 1, tcs = None, tes = None, gs = None, fs = Some 3\<rparr>"
  let ?s2 = "\<lparr>vs = Some 2, tcs = None, tes = None, gs = None, fs = Some 3\<rparr>"
  let ?r1 = "createGraphicsPipeline 4 ?gb ?this ?s1"
  let ?r2 = "createGraphicsPipeline 4 ?gb (snd ?r1) ?s2"
  have inv: "layouts_resolved ?gb ?this" by (rule layouts_resolved_new)
  have c1: "?r1 = (Inr (Some 0), snd ?r1)"
    by (simp add: manager_eval objects_eval device_eval layout_eval upt_rec)
  have c2: "?r2 = (Inr (Some 1), snd ?r2)"
    by (simp add: manager_eval objects_eval device_eval layout_eval upt_rec)
  have ne: "?s1 \<noteq> ?s2" by simp
  have same: "DxvkBindingLayout_eq (mergedLayout ?gb ?s1) (mergedLayout ?gb ?s2)"
    by (simp add: manager_eval layout_eval upt_rec)
  have n2: "length (m_graphicsPipelines (snd ?r2)) = 2"
    by (simp add: manager_eval objects_eval device_eval layout_eval upt_rec)
  have n1: "length (m_pipelineLayouts (snd ?r2)) = 1"
    by (simp add: manager_eval objects_eval device_eval layout_eval upt_rec)
  have l0: "gp_layout (snd (m_graphicsPipelines (snd ?r2) ! 0)) = 0"
    by (simp add: manager_eval objects_eval device_eval layout_eval upt_rec)
  have l1: "gp_layout (snd (m_graphicsPipelines (snd ?r2) ! 1)) = 0"
    using equal_layouts_share_objects [OF inv c1 c2 ne same] l0 by simp
  from inv c1 c2 ne same n2 n1 l0 l1 show ?thesis
    unfolding Let_def by blast
qed


section \<open>Repeated requests\<close>

text \<open>
  The calls of the creation functions run one after another, the mutex being held from
  the lookup to the return. A request for a shader set that has a pipeline returns that
  pipeline again and changes nothing.
\<close>

lemma umap_find_append_new:
  "umap_find (=) k es = None \<Longrightarrow> umap_find (=) k (es @ [(k, v)]) = Some (length es)"
  by (simp add: umap_find_append)

lemma createGraphicsPipeline_again:
  assumes "createGraphicsPipeline MaxNumActiveBindings getBindings this shaders = (Inr (Some p), this')"
  shows "createGraphicsPipeline MaxNumActiveBindings getBindings this' shaders = (Inr (Some p), this')"
proof -
  from assms obtain v where v: "vs shaders = Some v"
    by (cases "vs shaders") (auto simp: createGraphicsPipeline_def)
  have "umap_find (=) shaders (m_graphicsPipelines this') = Some p"
  proof (cases "umap_find (=) shaders (m_graphicsPipelines this)")
    case (Some q)
    with v assms show ?thesis by (simp add: createGraphicsPipeline_def)
  next
    case None
    obtain r mid where cpl: "createPipelineLayout MaxNumActiveBindings this (mergedLayout getBindings shaders) = (r, mid)"
      by (cases "createPipelineLayout MaxNumActiveBindings this (mergedLayout getBindings shaders)")
    with None v assms obtain layout where r: "r = Inr layout"
      by (cases r) (auto simp: createGraphicsPipeline_def)
    with cpl None v assms
    have this': "this' = mid\<lparr>m_graphicsPipelines := m_graphicsPipelines mid
                            @ [(shaders, \<lparr>gp_shaders = shaders, gp_layout = layout\<rparr>)]\<rparr>"
      and p: "p = length (m_graphicsPipelines mid)"
      by (simp_all add: createGraphicsPipeline_def)
    have "m_graphicsPipelines mid = m_graphicsPipelines this"
      by (rule createPipelineLayout_Inr(3) [OF cpl [unfolded r]])
    with None show ?thesis by (simp add: this' p umap_find_append_new)
  qed
  with v show ?thesis by (simp add: createGraphicsPipeline_def)
qed

lemma createComputePipeline_again:
  assumes "createComputePipeline MaxNumActiveBindings getBindings this shaders = (Inr (Some p), this')"
  shows "createComputePipeline MaxNumActiveBindings getBindings this' shaders = (Inr (Some p), this')"
proof -
  from assms obtain c where c: "cs shaders = Some c"
    by (cases "cs shaders") (auto simp: createComputePipeline_def)
  have "umap_find (=) shaders (m_computePipelines this') = Some p"
  proof (cases "umap_find (=) shaders (m_computePipelines this)")
    case (Some q)
    with c assms show ?thesis by (simp add: createComputePipeline_def)
  next
    case None
    obtain r mid where cpl: "createPipelineLayout MaxNumActiveBindings this (getBindings c) = (r, mid)"
      by (cases "createPipelineLayout MaxNumActiveBindings this (getBindings c)")
    with None c assms obtain layout where r: "r = Inr layout"
      by (cases r) (auto simp: createComputePipeline_def)
    with cpl None c assms
    have this': "this' = mid\<lparr>m_computePipelines := m_computePipelines mid
                            @ [(shaders, \<lparr>cp_shaders = shaders, cp_layout = layout\<rparr>)]\<rparr>"
      and p: "p = length (m_computePipelines mid)"
      by (simp_all add: createComputePipeline_def)
    have "m_computePipelines mid = m_computePipelines this"
      by (rule createPipelineLayout_Inr(4) [OF cpl [unfolded r]])
    with None show ?thesis by (simp add: this' p umap_find_append_new)
  qed
  with c show ?thesis by (simp add: createComputePipeline_def)
qed

section \<open>Construction followed by destruction\<close>

lemma construct_then_delete_example:
  "(let layout = addBinding DxvkBindingLayout_new
        \<lparr>descriptorType = VK_DESCRIPTOR_TYPE_UNIFORM_BUFFER, resourceBinding = 0,
         viewType = VK_IMAGE_VIEW_TYPE_MAX_ENUM, stages = 0x01, access = 0x20\<rparr>;
       result = DxvkBindingLayoutObjects_new 4 (newDevice []) layout
    in liveObjects (snd result)
         = [PipelineLayout 5, DescriptorUpdateTemplate 4, DescriptorSetLayout 3,
            DescriptorSetLayout 2, DescriptorSetLayout 1]
     \<and> liveObjects (DxvkBindingLayoutObjects_delete (snd result) (projr (fst result))) = [])"
  by (simp add: objects_eval device_eval layout_eval DxvkBindingLayoutObjects_delete_def upt_rec)

end
